theory Spec2Isabelle
  imports Main
begin

section \<open>Data model of the chess engine\<close>

text \<open>
  The engine is the class \<open>ChessGameState\<close> of \<^verbatim>\<open>src/gameLogic/GameState.ts\<close>.
  Its types come from \<^verbatim>\<open>../types/Chess\<close>, \<^verbatim>\<open>../types/DiceGame\<close> and
  \<^verbatim>\<open>../types/CoinTossGame\<close>, which are not among the sources.
\<close>

text \<open>
  Modelled from the spec: the type declarations \<open>PlayerColor\<close>, \<open>PieceType\<close>,
  \<open>GameType\<close>, \<open>Position\<close>, \<open>Piece\<close>, \<open>Board\<close>, \<open>LastMove\<close>, \<open>DiceRoll\<close>,
  \<open>CoinToss\<close> and \<open>GameState\<close> (section 3 of the specification), with the field names
  the engine uses. The engine compares \<open>gameType\<close> with the strings \<^verbatim>\<open>'dice'\<close> and
  \<^verbatim>\<open>'coinToss'\<close> only; every other value is the classic game.
\<close>

datatype playerColor = WHITE | BLACK

datatype pieceType = PAWN | ROOK | KNIGHT | BISHOP | QUEEN | KING

datatype gameType = Classic | CoinToss | Dice

text \<open>Rows and columns are JavaScript numbers handed in by the caller; the model
  takes the integers among them, in range or not.\<close>

record position =
  row :: int
  col :: int

record piece =
  ptype :: pieceType
  color :: playerColor
  hasMoved :: bool

text \<open>A square is \<open>{piece, position}\<close>, the position being the square's own index,
  which nothing ever writes; a board is the 8 by 8 array of the pieces.\<close>

type_synonym board = "piece option list list"

type_synonym validMoves = "position list"

record lastMove =
  lm_from :: position
  lm_to :: position
  lm_piece :: piece

record diceRoll =
  dr_value :: int
  dr_moves :: int
  dr_player :: playerColor

record coinToss =
  result :: playerColor

text \<open>What \<open>getState\<close> hands out: twelve of the fourteen fields.\<close>

record gameState =
  board :: board
  currentTurn :: playerColor
  selectedPiece :: "position option"
  validMoves :: validMoves
  blockedMoves :: validMoves
  isInCheck :: "playerColor option"
  isCheckmate :: "playerColor option"
  lastMove :: "lastMove option"
  gameType :: gameType
  remainingMoves :: int
  waitingForCoinToss :: bool
  waitingForDiceRoll :: bool

text \<open>The private fields of the class: the same twelve and the two last draws.\<close>

record chessGameState = gameState +
  lastDiceRoll :: "diceRoll option"
  lastCoinToss :: "coinToss option"

text \<open>
  What the engine can throw: \<open>TypeError\<close> when a square outside the board is
  dereferenced (\<^verbatim>\<open>this.board[8]\<close> is \<^verbatim>\<open>undefined\<close>), \<open>RangeError\<close> when the call stack is
  exhausted, and the \<open>Error\<close> of \<open>findKingPosition\<close>.
\<close>

datatype error = TypeError | RangeError | KingNotFound

section \<open>Board access\<close>

definition opponent :: "playerColor \<Rightarrow> playerColor" where
  "opponent c = (if c = WHITE then BLACK else WHITE)"

definition homeRow :: "playerColor \<Rightarrow> int" where
  "homeRow c = (if c = WHITE then 7 else 0)"

definition isValidPosition :: "int \<Rightarrow> int \<Rightarrow> bool" where
  "isValidPosition r c = (r \<ge> 0 \<and> r < 8 \<and> c \<ge> 0 \<and> c < 8)"

text \<open>\<^verbatim>\<open>board[r][c].piece\<close> where the index is known to be on the board: a loop index,
  a constant, or a pair that passed \<open>isValidPosition\<close>.\<close>

definition pieceAt :: "board \<Rightarrow> int \<Rightarrow> int \<Rightarrow> piece option" where
  "pieceAt b r c = b ! nat r ! nat c"

text \<open>\<^verbatim>\<open>board[p.row][p.col].piece\<close> at a position of the caller: outside the board the
  row or the square is \<^verbatim>\<open>undefined\<close> and the property access throws.\<close>

definition squareAt :: "board \<Rightarrow> position \<Rightarrow> error + piece option" where
  "squareAt b p =
     (if isValidPosition (row p) (col p) then Inr (pieceAt b (row p) (col p))
      else Inl TypeError)"

text \<open>\<^verbatim>\<open>board[r][c].piece = v\<close> at an index on the board.\<close>

definition setPiece :: "board \<Rightarrow> int \<Rightarrow> int \<Rightarrow> piece option \<Rightarrow> board" where
  "setPiece b r c v = b[nat r := (b ! nat r)[nat c := v]]"

definition wf_board :: "board \<Rightarrow> bool" where
  "wf_board b = (length b = 8 \<and> (\<forall>r \<in> set b. length r = 8))"

definition backRank :: "pieceType list" where
  "backRank = [ROOK, KNIGHT, BISHOP, QUEEN, KING, BISHOP, KNIGHT, ROOK]"

definition createInitialBoard :: board where
  "createInitialBoard =
     [map (\<lambda>t. Some \<lparr>ptype = t, color = BLACK, hasMoved = False\<rparr>) backRank,
      replicate 8 (Some \<lparr>ptype = PAWN, color = BLACK, hasMoved = False\<rparr>),
      replicate 8 None, replicate 8 None, replicate 8 None, replicate 8 None,
      replicate 8 (Some \<lparr>ptype = PAWN, color = WHITE, hasMoved = False\<rparr>),
      map (\<lambda>t. Some \<lparr>ptype = t, color = WHITE, hasMoved = False\<rparr>) backRank]"

text \<open>The squares in the order of the two nested loops \<open>row = 0..7\<close>, \<open>col = 0..7\<close>.\<close>

definition allSquares :: "position list" where
  "allSquares = concat (map (\<lambda>r. map (\<lambda>c. \<lparr>row = r, col = c\<rparr>) [0..7]) [0..7])"

fun findKingFrom :: "playerColor \<Rightarrow> board \<Rightarrow> position list \<Rightarrow> error + position" where
  "findKingFrom c b [] = Inl KingNotFound"
| "findKingFrom c b (p # ps) =
     (case pieceAt b (row p) (col p) of
        Some k \<Rightarrow> if ptype k = KING \<and> color k = c then Inr p else findKingFrom c b ps
      | None \<Rightarrow> findKingFrom c b ps)"

definition findKingPosition :: "playerColor \<Rightarrow> board \<Rightarrow> error + position" where
  "findKingPosition c b = findKingFrom c b allSquares"

section \<open>Raw move generation\<close>

text \<open>
  The generators push onto \<open>validMoves\<close> and \<open>blockedMoves\<close>; \<open>calculateRawMovesByPieceType\<close>
  returns the first and drops the second, so the model returns the pushed valid moves.
  \<open>isEnPassantPossible\<close> reads the live board and \<open>lastMove\<close> of the engine, whatever
  board the generator was given.
\<close>

definition isEnPassantPossible :: "chessGameState \<Rightarrow> position \<Rightarrow> position \<Rightarrow> bool" where
  "isEnPassantPossible s frm to =
     (case pieceAt (board s) (row frm) (col frm) of
        None \<Rightarrow> False
      | Some p \<Rightarrow>
          if ptype p \<noteq> PAWN then False
          else if \<bar>col to - col frm\<bar> \<noteq> 1 then False
          else (case lastMove s of
                  None \<Rightarrow> False
                | Some lm \<Rightarrow>
                    if color p = WHITE
                    then ptype (lm_piece lm) = PAWN \<and> color (lm_piece lm) = BLACK \<and>
                         row (lm_from lm) = 1 \<and> row (lm_to lm) = 3 \<and>
                         col (lm_to lm) = col to \<and> row frm = 3 \<and> row to = 2
                    else ptype (lm_piece lm) = PAWN \<and> color (lm_piece lm) = WHITE \<and>
                         row (lm_from lm) = 6 \<and> row (lm_to lm) = 4 \<and>
                         col (lm_to lm) = col to \<and> row frm = 4 \<and> row to = 5))"

definition pawnCapture :: "chessGameState \<Rightarrow> board \<Rightarrow> piece \<Rightarrow> position \<Rightarrow> int \<Rightarrow> int \<Rightarrow>
    position list" where
  "pawnCapture s b p pos newRow newCol =
     (if isValidPosition newRow newCol then
        (case pieceAt b newRow newCol of
           Some t \<Rightarrow> if color t \<noteq> color p then [\<lparr>row = newRow, col = newCol\<rparr>] else []
         | None \<Rightarrow>
             if isEnPassantPossible s pos \<lparr>row = newRow, col = newCol\<rparr>
             then [\<lparr>row = newRow, col = newCol\<rparr>] else [])
      else [])"

definition calculatePawnMovesRaw :: "chessGameState \<Rightarrow> position \<Rightarrow> board \<Rightarrow>
    error + position list" where
  "calculatePawnMovesRaw s pos b =
     (case squareAt b pos of
        Inl e \<Rightarrow> Inl e
      | Inr None \<Rightarrow> Inr []
      | Inr (Some p) \<Rightarrow>
          (let direction = (if color p = WHITE then - 1 else 1);
               startRow = (if color p = WHITE then 6 else 1)
           in Inr
             ((if isValidPosition (row pos + direction) (col pos) \<and>
                  pieceAt b (row pos + direction) (col pos) = None
               then \<lparr>row = row pos + direction, col = col pos\<rparr> #
                    (if row pos = startRow \<and>
                        isValidPosition (row pos + 2 * direction) (col pos) \<and>
                        pieceAt b (row pos + 2 * direction) (col pos) = None
                     then [\<lparr>row = row pos + 2 * direction, col = col pos\<rparr>] else [])
               else []) @
              pawnCapture s b p pos (row pos + direction) (col pos - 1) @
              pawnCapture s b p pos (row pos + direction) (col pos + 1))))"

text \<open>
  The \<^verbatim>\<open>while\<close> loop of \<open>calculateLineMovementsRaw\<close> along one direction. The directions
  the rook and bishop generators hand over are never \<open>(0, 0)\<close>; the test on the
  direction only makes the walk a total function.
\<close>

function lineWalk :: "board \<Rightarrow> piece \<Rightarrow> int \<Rightarrow> int \<Rightarrow> int \<Rightarrow> int \<Rightarrow> position list" where
  "lineWalk b p dr dc r c =
     (if isValidPosition r c \<and> (dr \<noteq> 0 \<or> dc \<noteq> 0) then
        (case pieceAt b r c of
           None \<Rightarrow> \<lparr>row = r, col = c\<rparr> # lineWalk b p dr dc (r + dr) (c + dc)
         | Some t \<Rightarrow> if color t \<noteq> color p then [\<lparr>row = r, col = c\<rparr>] else [])
      else [])"
  by pat_completeness auto
termination
  by (relation "measure (\<lambda>(b, p, dr, dc, r, c).
        if dr > 0 then nat (8 - r) else if dr < 0 then nat (r + 1)
        else if dc > 0 then nat (8 - c) else nat (c + 1))")
     (auto simp: isValidPosition_def)

declare lineWalk.simps [simp del]

definition calculateLineMovementsRaw :: "position \<Rightarrow> (int \<times> int) list \<Rightarrow> board \<Rightarrow>
    error + position list" where
  "calculateLineMovementsRaw pos directions b =
     (case squareAt b pos of
        Inl e \<Rightarrow> Inl e
      | Inr None \<Rightarrow> Inr []
      | Inr (Some p) \<Rightarrow>
          Inr (concat (map (\<lambda>(dr, dc). lineWalk b p dr dc (row pos + dr) (col pos + dc))
                         directions)))"

definition rookDirections :: "(int \<times> int) list" where
  "rookDirections = [(- 1, 0), (1, 0), (0, - 1), (0, 1)]"

definition bishopDirections :: "(int \<times> int) list" where
  "bishopDirections = [(- 1, - 1), (- 1, 1), (1, - 1), (1, 1)]"

definition calculateRookMovesRaw :: "position \<Rightarrow> board \<Rightarrow> error + position list" where
  "calculateRookMovesRaw pos b = calculateLineMovementsRaw pos rookDirections b"

definition calculateBishopMovesRaw :: "position \<Rightarrow> board \<Rightarrow> error + position list" where
  "calculateBishopMovesRaw pos b = calculateLineMovementsRaw pos bishopDirections b"

definition calculateQueenMovesRaw :: "position \<Rightarrow> board \<Rightarrow> error + position list" where
  "calculateQueenMovesRaw pos b =
     (case calculateRookMovesRaw pos b of
        Inl e \<Rightarrow> Inl e
      | Inr rs \<Rightarrow> (case calculateBishopMovesRaw pos b of
                    Inl e \<Rightarrow> Inl e
                  | Inr bs \<Rightarrow> Inr (rs @ bs)))"

text \<open>The stepping pieces: each offset whose target is on the board and is empty or
  holds a piece of the other colour.\<close>

definition stepMoves :: "board \<Rightarrow> piece \<Rightarrow> position \<Rightarrow> (int \<times> int) list \<Rightarrow> position list" where
  "stepMoves b p pos offsets =
     concat (map (\<lambda>(dr, dc).
        if isValidPosition (row pos + dr) (col pos + dc) then
          (case pieceAt b (row pos + dr) (col pos + dc) of
             None \<Rightarrow> [\<lparr>row = row pos + dr, col = col pos + dc\<rparr>]
           | Some t \<Rightarrow> if color t \<noteq> color p
                       then [\<lparr>row = row pos + dr, col = col pos + dc\<rparr>] else [])
        else []) offsets)"

definition knightOffsets :: "(int \<times> int) list" where
  "knightOffsets = [(- 2, - 1), (- 2, 1), (- 1, - 2), (- 1, 2),
                    (1, - 2), (1, 2), (2, - 1), (2, 1)]"

definition kingOffsets :: "(int \<times> int) list" where
  "kingOffsets = [(- 1, - 1), (- 1, 0), (- 1, 1), (0, - 1), (0, 1),
                  (1, - 1), (1, 0), (1, 1)]"

definition calculateKnightMovesRaw :: "position \<Rightarrow> board \<Rightarrow> error + position list" where
  "calculateKnightMovesRaw pos b =
     (case squareAt b pos of
        Inl e \<Rightarrow> Inl e
      | Inr None \<Rightarrow> Inr []
      | Inr (Some p) \<Rightarrow> Inr (stepMoves b p pos knightOffsets))"

text \<open>
  \<open>calculateKingMovesRaw\<close> calls \<open>isCastlingPossible\<close>, which calls
  \<open>isSquareUnderAttack\<close>, which generates the raw moves of every piece of the other
  colour, its king included, which calls \<open>isCastlingPossible\<close> again. Nothing in the
  source bounds this recursion. The functions on the cycle take the next activation of
  \<open>isCastlingPossible\<close> as the argument \<open>castling\<close>; \<open>isCastlingPossible\<close> below closes
  the cycle by recursion on the number of activations the call stack still holds.
\<close>

type_synonym castling = "position \<Rightarrow> position \<Rightarrow> error + bool"

definition calculateKingMovesRaw :: "castling \<Rightarrow> position \<Rightarrow> board \<Rightarrow> error + position list" where
  "calculateKingMovesRaw castling pos b =
     (case squareAt b pos of
        Inl e \<Rightarrow> Inl e
      | Inr None \<Rightarrow> Inr []
      | Inr (Some p) \<Rightarrow>
          (let normal = stepMoves b p pos kingOffsets in
           if \<not> hasMoved p \<and> col pos = 4 then
             (let r = homeRow (color p) in
              case castling \<lparr>row = r, col = 4\<rparr> \<lparr>row = r, col = 7\<rparr> of
                Inl e \<Rightarrow> Inl e
              | Inr short \<Rightarrow>
                  (case castling \<lparr>row = r, col = 4\<rparr> \<lparr>row = r, col = 0\<rparr> of
                     Inl e \<Rightarrow> Inl e
                   | Inr long \<Rightarrow>
                       Inr (normal @ (if short then [\<lparr>row = r, col = 6\<rparr>] else []) @
                            (if long then [\<lparr>row = r, col = 2\<rparr>] else []))))
           else Inr normal))"

definition calculateRawMovesByPieceType :: "castling \<Rightarrow> chessGameState \<Rightarrow> position \<Rightarrow>
    pieceType \<Rightarrow> board \<Rightarrow> error + position list" where
  "calculateRawMovesByPieceType castling s pos t b =
     (case t of
        PAWN \<Rightarrow> calculatePawnMovesRaw s pos b
      | ROOK \<Rightarrow> calculateRookMovesRaw pos b
      | KNIGHT \<Rightarrow> calculateKnightMovesRaw pos b
      | BISHOP \<Rightarrow> calculateBishopMovesRaw pos b
      | QUEEN \<Rightarrow> calculateQueenMovesRaw pos b
      | KING \<Rightarrow> calculateKingMovesRaw castling pos b)"

section \<open>Attack detection and castling\<close>

text \<open>The double loop of \<open>isSquareUnderAttack\<close>, from a given square on: the first piece
  of \<open>byColor\<close> whose raw moves hold the square answers \<open>true\<close>; an exception of a
  generator leaves the loop.\<close>

fun attackedFrom :: "castling \<Rightarrow> chessGameState \<Rightarrow> position \<Rightarrow> playerColor \<Rightarrow> board \<Rightarrow>
    position list \<Rightarrow> error + bool" where
  "attackedFrom castling s target byColor b [] = Inr False"
| "attackedFrom castling s target byColor b (sq # sqs) =
     (case pieceAt b (row sq) (col sq) of
        None \<Rightarrow> attackedFrom castling s target byColor b sqs
      | Some p \<Rightarrow>
          if color p = byColor then
            (case calculateRawMovesByPieceType castling s sq (ptype p) b of
               Inl e \<Rightarrow> Inl e
             | Inr moves \<Rightarrow>
                 if \<exists>m \<in> set moves. row m = row target \<and> col m = col target then Inr True
                 else attackedFrom castling s target byColor b sqs)
          else attackedFrom castling s target byColor b sqs)"

definition isSquareUnderAttackWith :: "castling \<Rightarrow> chessGameState \<Rightarrow> position \<Rightarrow>
    playerColor \<Rightarrow> board \<Rightarrow> error + bool" where
  "isSquareUnderAttackWith castling s target byColor b =
     attackedFrom castling s target byColor b allSquares"

text \<open>The loops of \<open>isCastlingPossible\<close> over the columns the king crosses.\<close>

fun transitAttacked :: "castling \<Rightarrow> chessGameState \<Rightarrow> int \<Rightarrow> playerColor \<Rightarrow> int list \<Rightarrow>
    error + bool" where
  "transitAttacked castling s r byColor [] = Inr False"
| "transitAttacked castling s r byColor (c # cs) =
     (case isSquareUnderAttackWith castling s \<lparr>row = r, col = c\<rparr> byColor (board s) of
        Inl e \<Rightarrow> Inl e
      | Inr True \<Rightarrow> Inr True
      | Inr False \<Rightarrow> transitAttacked castling s r byColor cs)"

text \<open>The body of \<open>isCastlingPossible\<close>. Its first two statements dereference
  \<^verbatim>\<open>this.board[kingPos.row][kingPos.col]\<close> and \<^verbatim>\<open>this.board[rookPos.row][rookPos.col]\<close>
  as they come, so a position outside the board throws a \<open>TypeError\<close>; the columns
  between two squares of the board are on the board.\<close>

definition isCastlingPossibleBody :: "castling \<Rightarrow> chessGameState \<Rightarrow> position \<Rightarrow> position \<Rightarrow>
    error + bool" where
  "isCastlingPossibleBody castling s kingPos rookPos =
     (case squareAt (board s) kingPos of
        Inl e \<Rightarrow> Inl e
      | Inr kingSquare \<Rightarrow>
     (case squareAt (board s) rookPos of
        Inl e \<Rightarrow> Inl e
      | Inr rookSquare \<Rightarrow>
     (case (kingSquare, rookSquare) of
        (Some king, Some rook) \<Rightarrow>
          if ptype king \<noteq> KING \<or> hasMoved king \<or> ptype rook \<noteq> ROOK \<or> hasMoved rook
          then Inr False
          else if isInCheck s = Some (color king) then Inr False
          else if \<exists>c \<in> set [min (col kingPos) (col rookPos) + 1 ..
                              max (col kingPos) (col rookPos) - 1].
                    pieceAt (board s) (row kingPos) c \<noteq> None
          then Inr False
          else if col rookPos = 7 then
            (case transitAttacked castling s (row kingPos) (opponent (color king)) [4, 5, 6] of
               Inl e \<Rightarrow> Inl e
             | Inr a \<Rightarrow> Inr (\<not> a))
          else if col rookPos = 0 then
            (case transitAttacked castling s (row kingPos) (opponent (color king)) [2, 3, 4] of
               Inl e \<Rightarrow> Inl e
             | Inr a \<Rightarrow> Inr (\<not> a))
          else Inr True
      | _ \<Rightarrow> Inr False)))"

text \<open>
  \<open>isCastlingPossible n\<close>: the call with room for \<open>n\<close> nested activations of
  \<open>isCastlingPossible\<close> left on the call stack. With no room left the call throws
  \<open>RangeError\<close> (maximum call stack size exceeded).
\<close>

primrec isCastlingPossible :: "nat \<Rightarrow> chessGameState \<Rightarrow> position \<Rightarrow> position \<Rightarrow>
    error + bool" where
  "isCastlingPossible 0 s kingPos rookPos = Inl RangeError"
| "isCastlingPossible (Suc n) s kingPos rookPos =
     isCastlingPossibleBody (isCastlingPossible n s) s kingPos rookPos"

definition isSquareUnderAttack :: "nat \<Rightarrow> chessGameState \<Rightarrow> position \<Rightarrow> playerColor \<Rightarrow>
    board \<Rightarrow> error + bool" where
  "isSquareUnderAttack n s target byColor b =
     isSquareUnderAttackWith (isCastlingPossible n s) s target byColor b"

section \<open>The legality filter\<close>

text \<open>The scratch board of the filter: a copy of the live board on which the piece is
  put on the destination and its own square is cleared, in this order. The destination
  is a raw move, so it is on the board.\<close>

definition simulateMove :: "board \<Rightarrow> position \<Rightarrow> position \<Rightarrow> board" where
  "simulateMove b pos m =
     setPiece (setPiece b (row m) (col m) (pieceAt b (row pos) (col pos)))
              (row pos) (col pos) None"

text \<open>The callback of \<^verbatim>\<open>rawMoves.filter\<close>: whatever is thrown while the king is looked up
  or the attack is computed is caught, and the move is dropped.\<close>

definition moveIsSafe :: "nat \<Rightarrow> chessGameState \<Rightarrow> position \<Rightarrow> piece \<Rightarrow> position \<Rightarrow> bool" where
  "moveIsSafe n s pos p m =
     (let tempBoard = simulateMove (board s) pos m in
      case (if ptype p = KING then Inr m else findKingPosition (color p) tempBoard) of
        Inl e \<Rightarrow> False
      | Inr kingPos \<Rightarrow>
          (case isSquareUnderAttack n s kingPos (opponent (color p)) tempBoard of
             Inl e \<Rightarrow> False
           | Inr wouldBeInCheck \<Rightarrow> \<not> wouldBeInCheck))"

definition getValidMovesForPiece :: "nat \<Rightarrow> chessGameState \<Rightarrow> position \<Rightarrow>
    error + position list" where
  "getValidMovesForPiece n s pos =
     (case squareAt (board s) pos of
        Inl e \<Rightarrow> Inl e
      | Inr None \<Rightarrow> Inr []
      | Inr (Some p) \<Rightarrow>
          (case calculateRawMovesByPieceType (isCastlingPossible n s) s pos (ptype p) (board s) of
             Inl e \<Rightarrow> Inl e
           | Inr rawMoves \<Rightarrow> Inr (filter (moveIsSafe n s pos p) rawMoves)))"

section \<open>Check and checkmate detection\<close>

text \<open>One round of the loop of \<open>checkForCheck\<close>, with its \<^verbatim>\<open>try\<close> and \<^verbatim>\<open>catch\<close>.\<close>

definition checkColor :: "nat \<Rightarrow> chessGameState \<Rightarrow> playerColor \<Rightarrow> chessGameState" where
  "checkColor n s c =
     (case findKingPosition c (board s) of
        Inl e \<Rightarrow> s
      | Inr kingPosition \<Rightarrow>
          (case isSquareUnderAttack n s kingPosition (opponent c) (board s) of
             Inl e \<Rightarrow> s
           | Inr a \<Rightarrow> if a then s\<lparr>isInCheck := Some c\<rparr> else s))"

definition checkForCheck :: "nat \<Rightarrow> chessGameState \<Rightarrow> chessGameState" where
  "checkForCheck n s = checkColor n (checkColor n (s\<lparr>isInCheck := None\<rparr>) WHITE) BLACK"

text \<open>The double loop of \<open>checkForCheckmate\<close>: does a piece of the checked colour have
  a legal move. \<open>getValidMovesForPiece\<close> is called outside any \<^verbatim>\<open>try\<close>.\<close>

fun anyLegalMove :: "nat \<Rightarrow> chessGameState \<Rightarrow> playerColor \<Rightarrow> position list \<Rightarrow> error + bool" where
  "anyLegalMove n s c [] = Inr False"
| "anyLegalMove n s c (sq # sqs) =
     (case pieceAt (board s) (row sq) (col sq) of
        None \<Rightarrow> anyLegalMove n s c sqs
      | Some p \<Rightarrow>
          if color p = c then
            (case getValidMovesForPiece n s sq of
               Inl e \<Rightarrow> Inl e
             | Inr moves \<Rightarrow> if moves \<noteq> [] then Inr True else anyLegalMove n s c sqs)
          else anyLegalMove n s c sqs)"

text \<open>A method that changes the engine returns what it returned or threw, and the
  engine as it left it.\<close>

type_synonym 'a outcome = "(error + 'a) \<times> chessGameState"

definition checkForCheckmate :: "nat \<Rightarrow> chessGameState \<Rightarrow> unit outcome" where
  "checkForCheckmate n s =
     (case isInCheck s of
        None \<Rightarrow> (Inr (), s\<lparr>isCheckmate := None\<rparr>)
      | Some checkedColor \<Rightarrow>
          (case anyLegalMove n s checkedColor allSquares of
             Inl e \<Rightarrow> (Inl e, s)
           | Inr True \<Rightarrow> (Inr (), s\<lparr>isCheckmate := None\<rparr>)
           | Inr False \<Rightarrow> (Inr (), s\<lparr>isCheckmate := Some checkedColor\<rparr>)))"

section \<open>The turn state machine\<close>

text \<open>The first statement of \<open>handlePostMove\<close>: the step of the variant. It reads
  \<open>isInCheck\<close> as the previous evaluation left it.\<close>

definition advanceTurn :: "chessGameState \<Rightarrow> chessGameState" where
  "advanceTurn s =
     (if gameType s = Dice then
        (let s1 = s\<lparr>remainingMoves := remainingMoves s - 1\<rparr> in
         if remainingMoves s1 \<le> 0 \<and> isInCheck s1 = None
         then s1\<lparr>waitingForDiceRoll := True\<rparr> else s1)
      else if gameType s = CoinToss \<and> isInCheck s = None
      then s\<lparr>waitingForCoinToss := True\<rparr>
      else s\<lparr>currentTurn := opponent (currentTurn s)\<rparr>)"

text \<open>The override at the end of \<open>handlePostMove\<close>.\<close>

definition checkOverride :: "chessGameState \<Rightarrow> chessGameState" where
  "checkOverride s =
     s\<lparr>waitingForDiceRoll := False, waitingForCoinToss := False,
       currentTurn := opponent (currentTurn s)\<rparr>"

definition handlePostMove :: "nat \<Rightarrow> chessGameState \<Rightarrow> unit outcome" where
  "handlePostMove n s =
     (let s1 = advanceTurn s;
          s2 = s1\<lparr>selectedPiece := None, validMoves := [], blockedMoves := []\<rparr>;
          s3 = checkForCheck n s2
      in if isInCheck s3 \<noteq> None then
           (case checkForCheckmate n s3 of
              (Inl e, s4) \<Rightarrow> (Inl e, s4)
            | (Inr u, s4) \<Rightarrow>
                if isInCheck s4 \<noteq> None then (Inr (), checkOverride s4) else (Inr (), s4))
         else (Inr (), s3))"

text \<open>The two castling branches of \<open>movePiece\<close>, after \<open>isCastlingPossible\<close> has answered
  \<open>true\<close>: the king goes to \<open>kingCol\<close>, a moved rook of its colour appears on \<open>rookTo\<close>,
  the home squares of king and rook are cleared.\<close>

definition castle :: "board \<Rightarrow> piece \<Rightarrow> int \<Rightarrow> int \<Rightarrow> int \<Rightarrow> int \<Rightarrow> board" where
  "castle b fromPiece r kingCol rookTo rookFrom =
     setPiece
       (setPiece
          (setPiece
             (setPiece b r kingCol (Some (fromPiece\<lparr>hasMoved := True\<rparr>)))
             r rookTo (Some \<lparr>ptype = ROOK, color = color fromPiece, hasMoved = True\<rparr>))
          r 4 None)
       r rookFrom None"

definition finishMove :: "nat \<Rightarrow> chessGameState \<Rightarrow> bool outcome" where
  "finishMove n s =
     (case handlePostMove n s of
        (Inl e, s') \<Rightarrow> (Inl e, s')
      | (Inr u, s') \<Rightarrow> (Inr True, s'))"

text \<open>A castling branch of \<open>movePiece\<close>; the two branches differ in the columns
  only: \<open>6, 5, 7\<close> for the short side and \<open>2, 3, 0\<close> for the long side.\<close>

definition castlingMove :: "nat \<Rightarrow> chessGameState \<Rightarrow> piece \<Rightarrow> int \<Rightarrow> int \<Rightarrow> int \<Rightarrow>
    bool outcome" where
  "castlingMove n s fromPiece kingCol rookTo rookFrom =
     (let r = homeRow (color fromPiece) in
      case isCastlingPossible n s \<lparr>row = r, col = 4\<rparr> \<lparr>row = r, col = rookFrom\<rparr> of
        Inl e \<Rightarrow> (Inl e, s)
      | Inr ok \<Rightarrow>
          if \<not> ok then (Inr False, s)
          else finishMove n (s\<lparr>board := castle (board s) fromPiece r kingCol rookTo rookFrom\<rparr>))"

text \<open>The rest of \<open>movePiece\<close>, from \<^verbatim>\<open>const validMoves = ...\<close> on.\<close>

definition ordinaryMove :: "nat \<Rightarrow> chessGameState \<Rightarrow> position \<Rightarrow> position \<Rightarrow> piece \<Rightarrow>
    bool outcome" where
  "ordinaryMove n s frm to fromPiece =
     (case getValidMovesForPiece n s frm of
        Inl e \<Rightarrow> (Inl e, s)
      | Inr valid \<Rightarrow>
          if \<not> (\<exists>m \<in> set valid. row m = row to \<and> col m = col to)
          then (Inr False, s)
          else
            (let b1 = (if ptype fromPiece = PAWN \<and> isEnPassantPossible s frm to
                       then setPiece (board s) (row frm) (col to) None
                       else board s);
                 lm = \<lparr>lm_from = \<lparr>row = row frm, col = col frm\<rparr>,
                       lm_to = \<lparr>row = row to, col = col to\<rparr>,
                       lm_piece = fromPiece\<rparr>;
                 b2 = setPiece b1 (row to) (col to) (Some (fromPiece\<lparr>hasMoved := True\<rparr>));
                 b3 = setPiece b2 (row frm) (col frm) None
             in finishMove n (s\<lparr>board := b3, lastMove := Some lm\<rparr>)))"

definition movePiece :: "nat \<Rightarrow> chessGameState \<Rightarrow> position \<Rightarrow> position \<Rightarrow> bool outcome" where
  "movePiece n s frm to =
     (if gameType s = Dice \<and> remainingMoves s \<le> 0 then (Inr False, s)
      else if gameType s = CoinToss \<and> waitingForCoinToss s then (Inr False, s)
      else if gameType s = Dice \<and> waitingForDiceRoll s then (Inr False, s)
      else
        (case squareAt (board s) frm of
           Inl e \<Rightarrow> (Inl e, s)
         | Inr None \<Rightarrow> (Inr False, s)
         | Inr (Some fromPiece) \<Rightarrow>
             if ptype fromPiece = KING \<and> col frm = 4 \<and> col to = 6
             then castlingMove n s fromPiece 6 5 7
             else if ptype fromPiece = KING \<and> col frm = 4 \<and> col to = 2
             then castlingMove n s fromPiece 2 3 0
             else ordinaryMove n s frm to fromPiece))"

section \<open>Selection, promotion, the random draws, reset\<close>

definition getCastlingPartners :: "nat \<Rightarrow> chessGameState \<Rightarrow> position \<Rightarrow>
    error + position list" where
  "getCastlingPartners n s pos =
     (case squareAt (board s) pos of
        Inl e \<Rightarrow> Inl e
      | Inr None \<Rightarrow> Inr []
      | Inr (Some p) \<Rightarrow>
          if hasMoved p then Inr []
          else
            (let r = homeRow (color p) in
             if ptype p = KING \<and> col pos = 4 then
               (case isCastlingPossible n s \<lparr>row = r, col = 4\<rparr> \<lparr>row = r, col = 7\<rparr> of
                  Inl e \<Rightarrow> Inl e
                | Inr short \<Rightarrow>
                    (case isCastlingPossible n s \<lparr>row = r, col = 4\<rparr> \<lparr>row = r, col = 0\<rparr> of
                       Inl e \<Rightarrow> Inl e
                     | Inr long \<Rightarrow>
                         Inr ((if short then [\<lparr>row = r, col = 7\<rparr>] else []) @
                              (if long then [\<lparr>row = r, col = 0\<rparr>] else []))))
             else if ptype p = ROOK \<and> (col pos = 0 \<or> col pos = 7) then
               (case isCastlingPossible n s \<lparr>row = r, col = 4\<rparr> pos of
                  Inl e \<Rightarrow> Inl e
                | Inr ok \<Rightarrow> Inr (if ok then [\<lparr>row = r, col = 4\<rparr>] else []))
             else Inr []))"

definition clearSelection :: "chessGameState \<Rightarrow> chessGameState" where
  "clearSelection s = s\<lparr>selectedPiece := None, validMoves := [], blockedMoves := []\<rparr>"

definition selectPiece :: "nat \<Rightarrow> chessGameState \<Rightarrow> position \<Rightarrow> unit outcome" where
  "selectPiece n s pos =
     (case squareAt (board s) pos of
        Inl e \<Rightarrow> (Inl e, s)
      | Inr None \<Rightarrow> (Inr (), clearSelection s)
      | Inr (Some p) \<Rightarrow>
          if color p \<noteq> currentTurn s then (Inr (), clearSelection s)
          else
            (let s1 = s\<lparr>selectedPiece := Some pos\<rparr> in
             case getValidMovesForPiece n s1 pos of
               Inl e \<Rightarrow> (Inl e, s1)
             | Inr legalMoves \<Rightarrow>
                 (case calculateRawMovesByPieceType (isCastlingPossible n s1) s1 pos
                         (ptype p) (board s1) of
                    Inl e \<Rightarrow> (Inl e, s1)
                  | Inr rawMoves \<Rightarrow>
                      (case getCastlingPartners n s1 pos of
                         Inl e \<Rightarrow> (Inl e, s1)
                       | Inr castlingPartners \<Rightarrow>
                           (let s2 = s1\<lparr>validMoves := legalMoves @ castlingPartners\<rparr> in
                            (Inr (),
                             s2\<lparr>blockedMoves :=
                                  filter (\<lambda>m. \<not> (\<exists>v \<in> set (validMoves s2).
                                                    row v = row m \<and> col v = col m))
                                         rawMoves\<rparr>))))))"

definition unselectPiece :: "chessGameState \<Rightarrow> chessGameState" where
  "unselectPiece s = s\<lparr>selectedPiece := None, validMoves := [], blockedMoves := []\<rparr>"

text \<open>The last two statements of \<open>promotePawn\<close>: \<open>checkForCheck\<close>, and \<open>checkForCheckmate\<close>
  when a check was found.\<close>

definition recheck :: "nat \<Rightarrow> chessGameState \<Rightarrow> unit outcome" where
  "recheck n s =
     (let s2 = checkForCheck n s
      in if isInCheck s2 \<noteq> None then checkForCheckmate n s2 else (Inr (), s2))"

definition isLastRank :: "piece \<Rightarrow> position \<Rightarrow> bool" where
  "isLastRank p pos = ((color p = WHITE \<and> row pos = 0) \<or> (color p = BLACK \<and> row pos = 7))"

definition promotePawn :: "nat \<Rightarrow> chessGameState \<Rightarrow> position \<Rightarrow> pieceType \<Rightarrow> unit outcome" where
  "promotePawn n s pos newType =
     (case squareAt (board s) pos of
        Inl e \<Rightarrow> (Inl e, s)
      | Inr None \<Rightarrow> (Inr (), s)
      | Inr (Some p) \<Rightarrow>
          if ptype p \<noteq> PAWN then (Inr (), s)
          else if \<not> isLastRank p pos then (Inr (), s)
          else
            recheck n (s\<lparr>board := setPiece (board s) (row pos) (col pos)
                          (Some \<lparr>ptype = newType, color = color p, hasMoved = True\<rparr>)\<rparr>))"

text \<open>The call without the second argument: \<open>newType\<close> defaults to the queen.\<close>

definition promotePawnDefault :: "nat \<Rightarrow> chessGameState \<Rightarrow> position \<Rightarrow> unit outcome" where
  "promotePawnDefault n s pos = promotePawn n s pos QUEEN"

text \<open>\<open>rollDice\<close> and \<open>tossCoin\<close> draw from \<^verbatim>\<open>Math.random()\<close>; the model takes what was
  drawn as an argument: the face \<open>v\<close> of the die, from 1 to 6, and the side of the coin.\<close>

definition rollDice :: "int \<Rightarrow> chessGameState \<Rightarrow> diceRoll \<times> chessGameState" where
  "rollDice v s =
     (if isInCheck s \<noteq> None \<or> \<not> waitingForDiceRoll s
      then (\<lparr>dr_value = 0, dr_moves = 0, dr_player = currentTurn s\<rparr>, s)
      else
        (let roll = (if v \<le> 3 then \<lparr>dr_value = v, dr_moves = v, dr_player = WHITE\<rparr>
                     else \<lparr>dr_value = v, dr_moves = v - 3, dr_player = BLACK\<rparr>)
         in (roll, s\<lparr>currentTurn := dr_player roll, remainingMoves := dr_moves roll,
                     waitingForDiceRoll := False, lastDiceRoll := Some roll\<rparr>)))"

definition tossCoin :: "playerColor \<Rightarrow> chessGameState \<Rightarrow> coinToss \<times> chessGameState" where
  "tossCoin side s =
     (if isInCheck s \<noteq> None \<or> \<not> waitingForCoinToss s
      then (\<lparr>result = currentTurn s\<rparr>, s)
      else (\<lparr>result = side\<rparr>,
            s\<lparr>currentTurn := side, waitingForCoinToss := False,
              lastCoinToss := Some \<lparr>result = side\<rparr>\<rparr>))"

definition construct :: "gameType \<Rightarrow> chessGameState" where
  "construct g =
     \<lparr>board = createInitialBoard, currentTurn = WHITE, selectedPiece = None,
      validMoves = [], blockedMoves = [], isInCheck = None, isCheckmate = None,
      lastMove = None, gameType = g, remainingMoves = 1,
      waitingForCoinToss = (g = CoinToss), waitingForDiceRoll = (g = Dice),
      lastDiceRoll = None, lastCoinToss = None\<rparr>"

definition resetGame :: "chessGameState \<Rightarrow> chessGameState" where
  "resetGame s =
     s\<lparr>board := createInitialBoard, currentTurn := WHITE, selectedPiece := None,
       validMoves := [], blockedMoves := [], isInCheck := None, isCheckmate := None,
       lastMove := None, remainingMoves := 1,
       waitingForCoinToss := (gameType s = CoinToss),
       waitingForDiceRoll := (gameType s = Dice),
       lastDiceRoll := None, lastCoinToss := None\<rparr>"

definition getState :: "chessGameState \<Rightarrow> gameState" where
  "getState s =
     \<lparr>board = board s, currentTurn = currentTurn s, selectedPiece = selectedPiece s,
      validMoves = validMoves s, blockedMoves = blockedMoves s, isInCheck = isInCheck s,
      isCheckmate = isCheckmate s, lastMove = lastMove s, gameType = gameType s,
      remainingMoves = remainingMoves s, waitingForCoinToss = waitingForCoinToss s,
      waitingForDiceRoll = waitingForDiceRoll s\<rparr>"

section \<open>Sequences of calls\<close>

text \<open>A caller's use of the public surface, and the engine after each call; a call
  that throws leaves the engine as it was when the exception left it.\<close>

datatype call =
    SelectPiece position
  | UnselectPiece
  | MovePiece position position
  | PromotePawn position pieceType
  | RollDice int
  | TossCoin playerColor
  | ResetGame
  | GetState

fun perform :: "nat \<Rightarrow> chessGameState \<Rightarrow> call \<Rightarrow> chessGameState" where
  "perform n s (SelectPiece p) = snd (selectPiece n s p)"
| "perform n s UnselectPiece = unselectPiece s"
| "perform n s (MovePiece a b) = snd (movePiece n s a b)"
| "perform n s (PromotePawn p t) = snd (promotePawn n s p t)"
| "perform n s (RollDice v) = snd (rollDice v s)"
| "perform n s (TossCoin c) = snd (tossCoin c s)"
| "perform n s ResetGame = resetGame s"
| "perform n s GetState = s"

definition play :: "nat \<Rightarrow> gameType \<Rightarrow> call list \<Rightarrow> chessGameState" where
  "play n g calls = foldl (perform n) (construct g) calls"

definition sq :: "int \<Rightarrow> int \<Rightarrow> position" where
  "sq r c = \<lparr>row = r, col = c\<rparr>"

section \<open>Games played on the engine\<close>

text \<open>
  The games below are played from a fresh engine through the public methods, a square
  being \<open>sq row col\<close>. Those with a fixed stack depth are played with room for eight
  nested activations of \<open>isCastlingPossible\<close>; none of their positions needs more than
  two, but for the last game, after which no depth is enough.
\<close>

text \<open>Classic: 1. e4 f6, after which 2. Qh5+ gives check.\<close>

definition queenCheckOpening :: "call list" where
  "queenCheckOpening = [MovePiece (sq 6 4) (sq 4 4), MovePiece (sq 1 5) (sq 2 5)]"

text \<open>Classic: 1. f3 e5 2. g4 Qh4, the fool's mate.\<close>

definition foolsMate :: "call list" where
  "foolsMate = [MovePiece (sq 6 5) (sq 5 5), MovePiece (sq 1 4) (sq 3 4),
                MovePiece (sq 6 6) (sq 4 6), MovePiece (sq 0 3) (sq 4 7)]"

text \<open>Classic: 1. e3 a6 2. Be2 b6 3. Nf3 c6, after which White may castle short.\<close>

definition castleOpening :: "call list" where
  "castleOpening = [MovePiece (sq 6 4) (sq 5 4), MovePiece (sq 1 0) (sq 2 0),
                    MovePiece (sq 7 5) (sq 6 4), MovePiece (sq 1 1) (sq 2 1),
                    MovePiece (sq 7 6) (sq 5 5), MovePiece (sq 1 2) (sq 2 2)]"

text \<open>Classic: 1. a4 h6 2. a5 h5 3. a6 h4 4. axb7 h3 5. bxa8, a white pawn on its last
  rank with Black to move.\<close>

definition promoClassic :: "call list" where
  "promoClassic = [MovePiece (sq 6 0) (sq 4 0), MovePiece (sq 1 7) (sq 2 7),
                   MovePiece (sq 4 0) (sq 3 0), MovePiece (sq 2 7) (sq 3 7),
                   MovePiece (sq 3 0) (sq 2 0), MovePiece (sq 3 7) (sq 4 7),
                   MovePiece (sq 2 0) (sq 1 1), MovePiece (sq 4 7) (sq 5 7),
                   MovePiece (sq 1 1) (sq 0 0)]"

text \<open>Dice: White rolls 1 and plays e4, Black rolls 4 (one move) and plays f6, White
  rolls 1 and plays Qh5+: the check comes with the last move the roll granted.\<close>

definition diceDead :: "call list" where
  "diceDead = [RollDice 1, MovePiece (sq 6 4) (sq 4 4), RollDice 4, MovePiece (sq 1 5) (sq 2 5),
               RollDice 1, MovePiece (sq 7 3) (sq 3 7)]"

text \<open>Dice: the same, but White's last roll is a 2, so Qh5+ leaves one move of the
  roll, which goes to the checked side.\<close>

definition diceStale :: "call list" where
  "diceStale = [RollDice 1, MovePiece (sq 6 4) (sq 4 4), RollDice 4, MovePiece (sq 1 5) (sq 2 5),
                RollDice 2, MovePiece (sq 7 3) (sq 3 7)]"

text \<open>Dice: White rolls 3, 3 and 2 and plays a4, a5, a6; axb7, bxc8, Nc3; Nb5, Nd6+.
  A white pawn stands on c8 and the check comes with the last granted move.\<close>

definition dicePromo :: "call list" where
  "dicePromo = [RollDice 3, MovePiece (sq 6 0) (sq 4 0), MovePiece (sq 4 0) (sq 3 0),
                MovePiece (sq 3 0) (sq 2 0),
                RollDice 3, MovePiece (sq 2 0) (sq 1 1), MovePiece (sq 1 1) (sq 0 2),
                MovePiece (sq 7 1) (sq 5 2),
                RollDice 2, MovePiece (sq 5 2) (sq 3 1), MovePiece (sq 3 1) (sq 2 3)]"

text \<open>Classic: 1. e4 c6 2. e5 Qa5 3. Ke2 a6 4. Kf3 b6 5. Kg4 h6 6. Kh5 d5. The white
  king on h5, the white pawn on e5, the black pawn that has just come to d5 and the
  black queen on a5 stand on one rank, rank 5 (row 3).\<close>

definition enPassantPin :: "call list" where
  "enPassantPin = [MovePiece (sq 6 4) (sq 4 4), MovePiece (sq 1 2) (sq 2 2),
                   MovePiece (sq 4 4) (sq 3 4), MovePiece (sq 0 3) (sq 3 0),
                   MovePiece (sq 7 4) (sq 6 4), MovePiece (sq 1 0) (sq 2 0),
                   MovePiece (sq 6 4) (sq 5 5), MovePiece (sq 1 1) (sq 2 1),
                   MovePiece (sq 5 5) (sq 4 6), MovePiece (sq 1 7) (sq 2 7),
                   MovePiece (sq 4 6) (sq 3 7), MovePiece (sq 1 3) (sq 3 3)]"

text \<open>Classic: 1. h4 g5 2. hxg5 h5 3. e3 h4 4. Be2 h3 5. Nf3 h2. A black pawn stands on
  h2 (row 6, column 7), next to the empty square g1; the white king and the rook on h1
  have not moved and f1 and g1 are empty.\<close>

definition castleIntoCheck :: "call list" where
  "castleIntoCheck = [MovePiece (sq 6 7) (sq 4 7), MovePiece (sq 1 6) (sq 3 6),
                      MovePiece (sq 4 7) (sq 3 6), MovePiece (sq 1 7) (sq 3 7),
                      MovePiece (sq 6 4) (sq 5 4), MovePiece (sq 3 7) (sq 4 7),
                      MovePiece (sq 7 5) (sq 6 4), MovePiece (sq 4 7) (sq 5 7),
                      MovePiece (sq 7 6) (sq 5 5), MovePiece (sq 5 7) (sq 6 7)]"

text \<open>Classic: 1. e3 e6 2. Be2 Be7 3. Nf3 Nf6, after which either side may castle
  short.\<close>

definition bothMayCastle :: "call list" where
  "bothMayCastle = [MovePiece (sq 6 4) (sq 5 4), MovePiece (sq 1 4) (sq 2 4),
                    MovePiece (sq 7 5) (sq 6 4), MovePiece (sq 0 5) (sq 1 4),
                    MovePiece (sq 7 6) (sq 5 5), MovePiece (sq 0 6) (sq 2 5)]"

section \<open>Notions used in the proofs\<close>

text \<open>No square of the list holds a king of the colour.\<close>

definition noKingOf :: "board \<Rightarrow> playerColor \<Rightarrow> position list \<Rightarrow> bool" where
  "noKingOf b c sqs =
     list_all (\<lambda>p. case pieceAt b (row p) (col p) of
                      None \<Rightarrow> True
                    | Some q \<Rightarrow> \<not> (color q = c \<and> ptype q = KING)) sqs"

text \<open>The activation of \<open>isCastlingPossible\<close> that finds no stack left.\<close>

definition overflow :: castling where
  "overflow k r = Inl RangeError"


section \<open>What each method leaves untouched\<close>

lemma checkColor_cases: "checkColor n s c = s \<or> checkColor n s c = s\<lparr>isInCheck := Some c\<rparr>"
  by (auto simp: checkColor_def split: sum.splits)

lemma checkForCheck_frame: "\<exists>x. checkForCheck n s = s\<lparr>isInCheck := x\<rparr>"
proof -
  let ?s0 = "s\<lparr>isInCheck := None\<rparr>"
  from checkColor_cases[of n ?s0 WHITE]
  obtain x where 1: "checkColor n ?s0 WHITE = s\<lparr>isInCheck := x\<rparr>" by auto
  from checkColor_cases[of n "s\<lparr>isInCheck := x\<rparr>" BLACK]
  obtain y where "checkColor n (s\<lparr>isInCheck := x\<rparr>) BLACK = s\<lparr>isInCheck := y\<rparr>" by auto
  with 1 show ?thesis by (auto simp: checkForCheck_def)
qed

lemma checkForCheckmate_frame:
  "checkForCheckmate n s = (r, s') \<Longrightarrow> \<exists>x. s' = s\<lparr>isCheckmate := x\<rparr>"
  by (auto simp: checkForCheckmate_def split: option.splits sum.splits bool.splits intro: exI[of _ "isCheckmate s"])

lemma checkForCheckmate_ok:
  "checkForCheckmate n s = (Inr u, s') \<Longrightarrow> isInCheck s = None \<Longrightarrow> s' = s\<lparr>isCheckmate := None\<rparr>"
  by (auto simp: checkForCheckmate_def split: option.splits sum.splits bool.splits)



lemma handlePostMove_ok:
  assumes "handlePostMove n s = (Inr u, s')"
  shows "(isInCheck s' = None \<and>
          s' = (advanceTurn s)\<lparr>selectedPiece := None, validMoves := [], blockedMoves := [],
                               isInCheck := None\<rparr>) \<or>
         (\<exists>c m. isInCheck s' = Some c \<and>
            s' = checkOverride ((advanceTurn s)\<lparr>selectedPiece := None, validMoves := [],
                   blockedMoves := [], isInCheck := Some c, isCheckmate := m\<rparr>))"
proof -
  let ?s2 = "(advanceTurn s)\<lparr>selectedPiece := None, validMoves := [], blockedMoves := []\<rparr>"
  obtain x where x: "checkForCheck n ?s2 = ?s2\<lparr>isInCheck := x\<rparr>"
    using checkForCheck_frame by blast
  show ?thesis
  proof (cases x)
    case None
    with x have "handlePostMove n s = (Inr (), ?s2\<lparr>isInCheck := None\<rparr>)"
      by (simp add: handlePostMove_def Let_def)
    with assms have "s' = ?s2\<lparr>isInCheck := None\<rparr>" by simp
    then show ?thesis by simp
  next
    case (Some c)
    obtain r s4 where r: "checkForCheckmate n (?s2\<lparr>isInCheck := Some c\<rparr>) = (r, s4)"
      by (cases "checkForCheckmate n (?s2\<lparr>isInCheck := Some c\<rparr>)")
    then obtain m where m: "s4 = ?s2\<lparr>isInCheck := Some c, isCheckmate := m\<rparr>"
      using checkForCheckmate_frame by blast
    from x Some r m have "handlePostMove n s =
        (case r of Inl e \<Rightarrow> (Inl e, s4) | Inr u \<Rightarrow> (Inr (), checkOverride s4))"
      by (simp add: handlePostMove_def Let_def split: sum.splits)
    with assms have "s' = checkOverride s4" by (auto split: sum.splits)
    with m show ?thesis by (auto simp: checkOverride_def)
  qed
qed

lemma handlePostMove_cases:
  assumes "handlePostMove n s = (r, s')"
  shows "\<exists>x m. s' = (advanceTurn s)\<lparr>selectedPiece := None, validMoves := [],
                      blockedMoves := [], isInCheck := x, isCheckmate := m\<rparr> \<or>
               s' = checkOverride ((advanceTurn s)\<lparr>selectedPiece := None, validMoves := [],
                      blockedMoves := [], isInCheck := x, isCheckmate := m\<rparr>)"
proof -
  let ?s2 = "(advanceTurn s)\<lparr>selectedPiece := None, validMoves := [], blockedMoves := []\<rparr>"
  obtain x where x: "checkForCheck n ?s2 = ?s2\<lparr>isInCheck := x\<rparr>"
    using checkForCheck_frame by blast
  obtain r4 s4 where r: "checkForCheckmate n (?s2\<lparr>isInCheck := x\<rparr>) = (r4, s4)"
    by (cases "checkForCheckmate n (?s2\<lparr>isInCheck := x\<rparr>)")
  then obtain m where m: "s4 = ?s2\<lparr>isInCheck := x, isCheckmate := m\<rparr>"
    using checkForCheckmate_frame by blast
  have "handlePostMove n s =
      (if x \<noteq> None then
         (case r4 of Inl e \<Rightarrow> (Inl e, s4) | Inr u \<Rightarrow> (Inr (), checkOverride s4))
       else (Inr (), ?s2\<lparr>isInCheck := x\<rparr>))"
    using x r m by (simp add: handlePostMove_def Let_def split: sum.splits)
  with assms have "s' = ?s2\<lparr>isInCheck := x, isCheckmate := isCheckmate ?s2\<rparr> \<or> s' = s4 \<or>
      s' = checkOverride s4"
    by (auto split: sum.splits if_splits)
  with m show ?thesis by blast
qed

lemma movePiece_ok:
  assumes "movePiece n s frm to = (Inr True, s')"
  shows "\<exists>b lm. handlePostMove n (s\<lparr>board := b, lastMove := lm\<rparr>) = (Inr (), s')"
proof -
  have fin: "\<And>t. finishMove n t = (Inr True, s') \<Longrightarrow> handlePostMove n t = (Inr (), s')"
    by (auto simp: finishMove_def split: prod.splits sum.splits)
  from assms consider
      (c) b where "finishMove n (s\<lparr>board := b\<rparr>) = (Inr True, s')"
    | (m) b lm where "finishMove n (s\<lparr>board := b, lastMove := lm\<rparr>) = (Inr True, s')"
    by (auto simp: movePiece_def castlingMove_def ordinaryMove_def Let_def split: if_splits sum.splits option.splits)
  then show ?thesis
  proof cases
    case c
    then have "handlePostMove n (s\<lparr>board := b, lastMove := lastMove s\<rparr>) = (Inr (), s')"
      using fin by simp
    then show ?thesis by blast
  next
    case m
    then show ?thesis using fin by blast
  qed
qed


lemma movePiece_cases:
  assumes "movePiece n s frm to = (r, s')"
  shows "s' = s \<or> (\<exists>b lm. handlePostMove n (s\<lparr>board := b, lastMove := lm\<rparr>) = (case r of Inl e \<Rightarrow> Inl e | Inr u \<Rightarrow> Inr (), s'))"
proof -
  have fin: "\<And>t. finishMove n t = (r, s') \<Longrightarrow>
      handlePostMove n t = (case r of Inl e \<Rightarrow> Inl e | Inr u \<Rightarrow> Inr (), s')"
    by (auto simp: finishMove_def split: prod.splits sum.splits)
  from assms consider (u) "s' = s"
    | (c) b where "finishMove n (s\<lparr>board := b\<rparr>) = (r, s')"
    | (m) b lm where "finishMove n (s\<lparr>board := b, lastMove := lm\<rparr>) = (r, s')"
    by (auto simp: movePiece_def castlingMove_def ordinaryMove_def Let_def split: if_splits sum.splits option.splits)
  then show ?thesis
  proof cases
    case u
    then show ?thesis by simp
  next
    case c
    then have "finishMove n (s\<lparr>board := b, lastMove := lastMove s\<rparr>) = (r, s')" by simp
    from fin[OF this] show ?thesis by blast
  next
    case m
    from fin[OF this] show ?thesis by blast
  qed
qed

lemma advanceTurn_gameType: "gameType (advanceTurn s) = gameType s"
  by (simp add: advanceTurn_def Let_def)

lemma handlePostMove_gameType:
  "handlePostMove n s = (r, s') \<Longrightarrow> gameType s' = gameType s"
  by (drule handlePostMove_cases) (auto simp: checkOverride_def advanceTurn_gameType)

lemma movePiece_gameType: "gameType (snd (movePiece n s frm to)) = gameType s"
proof -
  obtain r s' where m: "movePiece n s frm to = (r, s')" by (cases "movePiece n s frm to")
  from movePiece_cases[OF m] have "gameType s' = gameType s"
    by (auto dest: handlePostMove_gameType)
  with m show ?thesis by simp
qed

lemma selectPiece_frame:
  "selectPiece n s p = (r, s') \<Longrightarrow>
     \<exists>sel vm bm. s' = s\<lparr>selectedPiece := sel, validMoves := vm, blockedMoves := bm\<rparr>"
proof -
  assume a: "selectPiece n s p = (r, s')"
  have "s' = s \<or> s' = clearSelection s \<or> s' = s\<lparr>selectedPiece := Some p\<rparr> \<or>
        (\<exists>vm bm. s' = s\<lparr>selectedPiece := Some p, validMoves := vm, blockedMoves := bm\<rparr>)"
    using a by (auto simp: selectPiece_def Let_def split: sum.splits option.splits if_splits)
  then show ?thesis
  proof (elim disjE exE)
    assume "s' = s"
    then have "s' = s\<lparr>selectedPiece := selectedPiece s, validMoves := validMoves s,
        blockedMoves := blockedMoves s\<rparr>" by simp
    then show ?thesis by blast
  next
    assume "s' = clearSelection s"
    then show ?thesis unfolding clearSelection_def by blast
  next
    assume "s' = s\<lparr>selectedPiece := Some p\<rparr>"
    then have "s' = s\<lparr>selectedPiece := Some p, validMoves := validMoves s,
        blockedMoves := blockedMoves s\<rparr>" by simp
    then show ?thesis by blast
  next
    fix vm bm
    assume "s' = s\<lparr>selectedPiece := Some p, validMoves := vm, blockedMoves := bm\<rparr>"
    then show ?thesis by blast
  qed
qed

lemma recheck_frame:
  assumes "recheck n s = (r, s')"
  shows "\<exists>chk mate. s' = s\<lparr>isInCheck := chk, isCheckmate := mate\<rparr>"
proof -
  obtain x where x: "checkForCheck n s = s\<lparr>isInCheck := x\<rparr>"
    using checkForCheck_frame by blast
  show ?thesis
  proof (cases x)
    case None
    with x have "recheck n s = (Inr (), s\<lparr>isInCheck := None\<rparr>)"
      by (simp add: recheck_def Let_def)
    with assms have "s' = s\<lparr>isInCheck := None\<rparr>"
      by simp
    then show ?thesis
      by (intro exI[of _ None] exI[of _ "isCheckmate s"]) simp
  next
    case (Some c)
    with x have "recheck n s = checkForCheckmate n (s\<lparr>isInCheck := Some c\<rparr>)"
      by (simp add: recheck_def Let_def)
    with assms have "checkForCheckmate n (s\<lparr>isInCheck := Some c\<rparr>) = (r, s')"
      by simp
    from checkForCheckmate_frame[OF this] show ?thesis by blast
  qed
qed

lemma promotePawn_promotes:
  "squareAt (board s) pos = Inr (Some p) \<Longrightarrow> ptype p = PAWN \<Longrightarrow> isLastRank p pos \<Longrightarrow>
   promotePawn n s pos t =
     recheck n (s\<lparr>board := setPiece (board s) (row pos) (col pos)
                  (Some \<lparr>ptype = t, color = color p, hasMoved = True\<rparr>)\<rparr>)"
  by (simp add: promotePawn_def)

lemma promotePawn_noop:
  "\<not> (\<exists>p. squareAt (board s) pos = Inr (Some p) \<and> ptype p = PAWN \<and> isLastRank p pos) \<Longrightarrow>
   snd (promotePawn n s pos t) = s"
  by (auto simp: promotePawn_def split: sum.splits option.splits)

lemma promotePawn_frame:
  assumes a: "promotePawn n s pos t = (r, s')"
  shows "\<exists>b chk mate. s' = s\<lparr>board := b, isInCheck := chk, isCheckmate := mate\<rparr>"
proof (cases "\<exists>p. squareAt (board s) pos = Inr (Some p) \<and> ptype p = PAWN \<and> isLastRank p pos")
  case False
  from promotePawn_noop[OF this, of n t] a have "s' = s" by simp
  then have "s' = s\<lparr>board := board s, isInCheck := isInCheck s, isCheckmate := isCheckmate s\<rparr>"
    by simp
  then show ?thesis by blast
next
  case True
  then obtain p where p: "squareAt (board s) pos = Inr (Some p)" "ptype p = PAWN" "isLastRank p pos"
    by blast
  from promotePawn_promotes[OF p, of n t] a recheck_frame show ?thesis
    by metis
qed

lemma perform_gameType: "gameType (perform n s c) = gameType s"
proof (cases c)
  case (SelectPiece p)
  obtain r s' where "selectPiece n s p = (r, s')" by (cases "selectPiece n s p")
  with selectPiece_frame[OF this] SelectPiece show ?thesis by auto
next
  case (PromotePawn p t)
  obtain r s' where "promotePawn n s p t = (r, s')" by (cases "promotePawn n s p t")
  with promotePawn_frame[OF this] PromotePawn show ?thesis by auto
qed (auto simp: unselectPiece_def movePiece_gameType rollDice_def tossCoin_def resetGame_def Let_def)

lemma play_gameType: "gameType (foldl (perform n) s calls) = gameType s"
  by (induction calls arbitrary: s) (simp_all add: perform_gameType)

lemma handlePostMove_board:
  "handlePostMove n s = (r, s') \<Longrightarrow> board s' = board s \<and> lastMove s' = lastMove s"
  by (drule handlePostMove_cases) (auto simp: checkOverride_def advanceTurn_def Let_def)

lemma finishMove_board:
  "finishMove n s = (r, s') \<Longrightarrow> board s' = board s \<and> lastMove s' = lastMove s"
  by (auto simp: finishMove_def split: prod.splits sum.splits dest: handlePostMove_board)

section \<open>The board as a grid\<close>

lemma pieceAt_setPiece:
  assumes "wf_board b" "isValidPosition r c" "isValidPosition r' c'"
  shows "pieceAt (setPiece b r c v) r' c' = (if r' = r \<and> c' = c then v else pieceAt b r' c')"
proof -
  from assms have l: "nat r < length b" "nat r' < length b"
    by (auto simp: wf_board_def isValidPosition_def)
  then have "length (b ! nat r) = 8" using assms(1) by (auto simp: wf_board_def)
  then have c: "nat c < length (b ! nat r)" using assms(2) by (auto simp: isValidPosition_def)
  have e: "(nat r = nat r') = (r = r')" "(nat c = nat c') = (c = c')"
    using assms by (auto simp: isValidPosition_def)
  show ?thesis
    using l c e by (auto simp: pieceAt_def setPiece_def nth_list_update)
qed

lemma wf_board_setPiece:
  assumes "wf_board b"
  shows "wf_board (setPiece b r c v)"
proof (cases "nat r < length b")
  case True
  then have "length (b ! nat r) = 8" using assms by (auto simp: wf_board_def)
  then show ?thesis
    using assms by (auto simp: wf_board_def setPiece_def dest!: set_update_subset_insert[THEN subsetD])
next
  case False
  then have "b[nat r := (b ! nat r)[nat c := v]] = b" by (simp add: list_update_beyond)
  then show ?thesis using assms by (simp add: setPiece_def)
qed


lemma squareAt_valid: "isValidPosition (row p) (col p) \<Longrightarrow> squareAt b p = Inr (pieceAt b (row p) (col p))"
  by (simp add: squareAt_def)


lemma squareAt_Inr: "squareAt b p = Inr x \<Longrightarrow> pieceAt b (row p) (col p) = x"
  by (auto simp: squareAt_def split: if_splits)

lemma squareAt_throws: "squareAt b p = Inl e \<Longrightarrow> e = TypeError \<and> \<not> isValidPosition (row p) (col p)"
  by (auto simp: squareAt_def split: if_splits)


section \<open>Reset\<close>

text \<open>
  Claim C9. For every variant \<open>g\<close> and every state reached from a fresh engine of that
  variant by any sequence of public calls, \<open>resetGame\<close> followed by \<open>getState\<close> gives
  the snapshot that \<open>getState\<close> gives right after constructing an engine with \<open>g\<close>.
\<close>

theorem resetGame_roundtrip:
  "getState (resetGame (play n g calls)) = getState (construct g)"
proof -
  have "gameType (play n g calls) = g"
    by (simp add: play_def play_gameType construct_def)
  then show ?thesis
    by (simp add: getState_def resetGame_def construct_def)
qed

theorem resetGame_roundtrip_witness:
  "getState (resetGame (play 8 Classic queenCheckOpening)) = getState (construct Classic)"
  using resetGame_roundtrip [of 8 Classic queenCheckOpening] .

section \<open>The check override\<close>

text \<open>
  Claim C5. After every successful \<open>movePiece\<close>, in every variant, if the re-evaluation
  after the move finds a check, then \<open>waitingForDiceRoll\<close> and \<open>waitingForCoinToss\<close> are
  both false and \<open>currentTurn\<close> is the opposite of the colour it held just before the
  override ran, that is, after the step of the variant (\<open>advanceTurn\<close>).
\<close>

theorem check_forces_alternation:
  assumes "movePiece n s frm to = (Inr True, s')" and "isInCheck s' \<noteq> None"
  shows "\<not> waitingForDiceRoll s' \<and> \<not> waitingForCoinToss s' \<and>
         currentTurn s' = opponent (currentTurn (advanceTurn s))"
proof -
  from movePiece_ok[OF assms(1)] obtain b lm where
    h: "handlePostMove n (s\<lparr>board := b, lastMove := lm\<rparr>) = (Inr (), s')" by blast
  have t: "currentTurn (advanceTurn (s\<lparr>board := b, lastMove := lm\<rparr>)) = currentTurn (advanceTurn s)"
    by (simp add: advanceTurn_def Let_def)
  from handlePostMove_ok[OF h] assms(2) obtain c m where
    "s' = checkOverride ((advanceTurn (s\<lparr>board := b, lastMove := lm\<rparr>))\<lparr>selectedPiece := None,
           validMoves := [], blockedMoves := [], isInCheck := Some c, isCheckmate := m\<rparr>)"
    by auto
  then show ?thesis using t by (simp add: checkOverride_def)
qed

text \<open>The classic game 1. e4 f6 2. Qh5+: the queen's move returns \<open>true\<close> and finds
  Black in check.\<close>

lemma queenCheck_move:
  "fst (movePiece 8 (play 8 Classic queenCheckOpening) (sq 7 3) (sq 3 7)) = Inr True \<and>
   isInCheck (snd (movePiece 8 (play 8 Classic queenCheckOpening) (sq 7 3) (sq 3 7))) = Some BLACK"
  by code_simp

theorem check_forces_alternation_witness:
  "movePiece 8 (play 8 Classic queenCheckOpening) (sq 7 3) (sq 3 7) =
     (Inr True, snd (movePiece 8 (play 8 Classic queenCheckOpening) (sq 7 3) (sq 3 7))) \<and>
   isInCheck (snd (movePiece 8 (play 8 Classic queenCheckOpening) (sq 7 3) (sq 3 7))) \<noteq> None \<and>
   \<not> waitingForDiceRoll (snd (movePiece 8 (play 8 Classic queenCheckOpening) (sq 7 3) (sq 3 7))) \<and>
   \<not> waitingForCoinToss (snd (movePiece 8 (play 8 Classic queenCheckOpening) (sq 7 3) (sq 3 7))) \<and>
   currentTurn (snd (movePiece 8 (play 8 Classic queenCheckOpening) (sq 7 3) (sq 3 7))) =
     opponent (currentTurn (advanceTurn (play 8 Classic queenCheckOpening)))"
proof -
  let ?m = "movePiece 8 (play 8 Classic queenCheckOpening) (sq 7 3) (sq 3 7)"
  have m: "?m = (Inr True, snd ?m)"
    using queenCheck_move by (cases ?m) simp
  have c: "isInCheck (snd ?m) \<noteq> None"
    using queenCheck_move by simp
  from check_forces_alternation [OF m c] m c show ?thesis by simp
qed

section \<open>The legality filter and the en-passant capture\<close>

text \<open>
  What the filter establishes of a destination \<open>m\<close> it returns for the piece \<open>p\<close>: on
  the scratch board \<open>simulateMove\<close>, on which \<open>p\<close> has been relocated and nothing else
  has changed, the king's square (the destination itself when \<open>p\<close> is the king, the
  square \<open>findKingPosition\<close> finds otherwise) is not under attack in the sense of
  \<open>isSquareUnderAttack\<close>. The scratch board is not the board after the move when the
  move is an en-passant capture: the captured pawn is still on it.
\<close>

lemma filter_checks_simulation:
  assumes "getValidMovesForPiece n s pos = Inr moves" and "m \<in> set moves"
  shows "\<exists>p kingPos.
           squareAt (board s) pos = Inr (Some p) \<and>
           (if ptype p = KING then kingPos = m
            else findKingPosition (color p) (simulateMove (board s) pos m) = Inr kingPos) \<and>
           isSquareUnderAttack n s kingPos (opponent (color p))
             (simulateMove (board s) pos m) = Inr False"
proof -
  from assms obtain p raw where
    p: "squareAt (board s) pos = Inr (Some p)" and
    f: "moves = filter (moveIsSafe n s pos p) raw"
    by (auto simp: getValidMovesForPiece_def split: sum.splits option.splits)
  with assms(2) have safe: "moveIsSafe n s pos p m" by simp
  then obtain kingPos where
    k: "(if ptype p = KING then Inr m else findKingPosition (color p) (simulateMove (board s) pos m))
          = Inr kingPos" and
    a: "isSquareUnderAttack n s kingPos (opponent (color p)) (simulateMove (board s) pos m)
          = Inr False"
    by (auto simp: moveIsSafe_def Let_def split: sum.splits if_splits)
  from k have "if ptype p = KING then kingPos = m
      else findKingPosition (color p) (simulateMove (board s) pos m) = Inr kingPos"
    by (auto split: if_splits)
  with p a show ?thesis by blast
qed

text \<open>
  Claim C1 fails in a reachable state. After 1. e4 c6 2. e5 Qa5 3. Ke2 a6 4. Kf3 b6
  5. Kg4 h6 6. Kh5 d5 it is White's move and nobody is in check. For the white pawn on
  e5 the filter returns e6 and d6; d6 is the en-passant capture of the pawn on d5. On
  the scratch board of the filter the pawn on d5 still stands between the queen on a5
  and the king on h5, and the king's square is found unattacked. \<open>movePiece\<close> accepts
  e5 to d6, returns \<open>true\<close> and removes the pawn on d5; on the board it leaves, the
  white king on h5 is attacked by the queen, and the engine's own \<open>checkForCheck\<close>
  flags White, the side that has just moved, in check.
\<close>

theorem en_passant_self_check:
  "(let s = play (Suc (Suc n)) Classic enPassantPin;
        s' = perform (Suc (Suc n)) s (MovePiece (sq 3 4) (sq 2 3))
    in currentTurn s = WHITE \<and> isInCheck s = None \<and>
       pieceAt (board s) 3 4 = Some \<lparr>ptype = PAWN, color = WHITE, hasMoved = True\<rparr> \<and>
       pieceAt (board s) 3 3 = Some \<lparr>ptype = PAWN, color = BLACK, hasMoved = True\<rparr> \<and>
       pieceAt (board s) 3 0 = Some \<lparr>ptype = QUEEN, color = BLACK, hasMoved = True\<rparr> \<and>
       findKingPosition WHITE (board s) = Inr (sq 3 7) \<and>
       getValidMovesForPiece (Suc (Suc n)) s (sq 3 4) = Inr [sq 2 4, sq 2 3] \<and>
       isSquareUnderAttack (Suc n) s (sq 3 7) BLACK
         (simulateMove (board s) (sq 3 4) (sq 2 3)) = Inr False \<and>
       fst (movePiece (Suc (Suc n)) s (sq 3 4) (sq 2 3)) = Inr True \<and>
       pieceAt (board s') 2 3 = Some \<lparr>ptype = PAWN, color = WHITE, hasMoved = True\<rparr> \<and>
       pieceAt (board s') 3 4 = None \<and> pieceAt (board s') 3 3 = None \<and>
       findKingPosition WHITE (board s') = Inr (sq 3 7) \<and>
       isSquareUnderAttack (Suc n) s' (sq 3 7) BLACK (board s') = Inr True \<and>
       isInCheck s' = Some WHITE)"
  by code_simp

section \<open>Castling\<close>

lemma transitAttacked_False:
  "transitAttacked cast s r byColor cs = Inr False \<Longrightarrow>
   \<forall>c \<in> set cs. isSquareUnderAttackWith cast s \<lparr>row = r, col = c\<rparr> byColor (board s) = Inr False"
  by (induction cs) (auto split: sum.splits bool.splits if_splits)

lemma isCastlingPossibleBody_True:
  assumes "isCastlingPossibleBody cast s kingPos rookPos = Inr True"
  shows "\<exists>king rook.
     squareAt (board s) kingPos = Inr (Some king) \<and>
     squareAt (board s) rookPos = Inr (Some rook) \<and>
     ptype king = KING \<and> \<not> hasMoved king \<and> ptype rook = ROOK \<and> \<not> hasMoved rook \<and>
     isInCheck s \<noteq> Some (color king) \<and>
     (\<forall>c \<in> set [min (col kingPos) (col rookPos) + 1 .. max (col kingPos) (col rookPos) - 1].
        pieceAt (board s) (row kingPos) c = None) \<and>
     (col rookPos = 7 \<longrightarrow>
        transitAttacked cast s (row kingPos) (opponent (color king)) [4, 5, 6] = Inr False) \<and>
     (col rookPos = 0 \<longrightarrow>
        transitAttacked cast s (row kingPos) (opponent (color king)) [2, 3, 4] = Inr False)"
proof -
  from assms obtain king rook where
    k: "squareAt (board s) kingPos = Inr (Some king)"
       "squareAt (board s) rookPos = Inr (Some rook)"
    by (auto simp: isCastlingPossibleBody_def split: sum.splits option.splits)
  with assms have 1: "ptype king = KING \<and> \<not> hasMoved king \<and> ptype rook = ROOK \<and> \<not> hasMoved rook"
    by (auto simp: isCastlingPossibleBody_def split: if_splits)
  with assms k have 2: "isInCheck s \<noteq> Some (color king)"
    by (auto simp: isCastlingPossibleBody_def split: if_splits)
  with assms k 1 have 3:
    "\<forall>c \<in> set [min (col kingPos) (col rookPos) + 1 .. max (col kingPos) (col rookPos) - 1].
        pieceAt (board s) (row kingPos) c = None"
    by (simp add: isCastlingPossibleBody_def split: if_splits)
  with assms k 1 2 have 4:
    "col rookPos = 7 \<longrightarrow>
        transitAttacked cast s (row kingPos) (opponent (color king)) [4, 5, 6] = Inr False"
    "col rookPos = 0 \<longrightarrow>
        transitAttacked cast s (row kingPos) (opponent (color king)) [2, 3, 4] = Inr False"
    by (auto simp add: isCastlingPossibleBody_def split: if_splits sum.splits)
  from k 1 2 3 4 show ?thesis by blast
qed

lemma isCastlingPossible_True:
  assumes "isCastlingPossible n s \<lparr>row = r, col = 4\<rparr> \<lparr>row = r, col = rc\<rparr> = Inr True"
    and "rc = 7 \<or> rc = 0"
  shows "\<exists>king rook k. n = Suc k \<and>
     pieceAt (board s) r 4 = Some king \<and> ptype king = KING \<and> \<not> hasMoved king \<and>
     pieceAt (board s) r rc = Some rook \<and> ptype rook = ROOK \<and> \<not> hasMoved rook \<and>
     isInCheck s \<noteq> Some (color king) \<and>
     (\<forall>c \<in> set (if rc = 7 then [5, 6] else [1, 2, 3]). pieceAt (board s) r c = None) \<and>
     (\<forall>c \<in> set (if rc = 7 then [4, 5, 6] else [2, 3, 4]).
        isSquareUnderAttack k s \<lparr>row = r, col = c\<rparr> (opponent (color king)) (board s) = Inr False)"
proof -
  from assms(1) obtain k where n: "n = Suc k" by (cases n) auto
  with assms(1) have
    b: "isCastlingPossibleBody (isCastlingPossible k s) s \<lparr>row = r, col = 4\<rparr> \<lparr>row = r, col = rc\<rparr>
          = Inr True"
    by simp
  from isCastlingPossibleBody_True[OF b] obtain king rook where
    f: "pieceAt (board s) r 4 = Some king" "pieceAt (board s) r rc = Some rook"
       "ptype king = KING" "\<not> hasMoved king" "ptype rook = ROOK" "\<not> hasMoved rook"
       "isInCheck s \<noteq> Some (color king)"
       "\<forall>c \<in> set [min 4 rc + 1 .. max 4 rc - 1]. pieceAt (board s) r c = None"
       "rc = 7 \<longrightarrow> transitAttacked (isCastlingPossible k s) s r (opponent (color king)) [4, 5, 6]
                     = Inr False"
       "rc = 0 \<longrightarrow> transitAttacked (isCastlingPossible k s) s r (opponent (color king)) [2, 3, 4]
                     = Inr False"
    by (auto dest!: squareAt_Inr)
  have u7: "[min 4 (7::int) + 1 .. max 4 7 - 1] = [5, 6]" by code_simp
  have u0: "[min 4 (0::int) + 1 .. max 4 0 - 1] = [1, 2, 3]" by code_simp
  from f(8) assms(2) u7 u0
  have e: "\<forall>c \<in> set (if rc = 7 then [5, 6] else [1, 2, 3]). pieceAt (board s) r c = None"
    by auto
  have a: "\<forall>c \<in> set (if rc = 7 then [4, 5, 6] else [2, 3, 4]).
        isSquareUnderAttack k s \<lparr>row = r, col = c\<rparr> (opponent (color king)) (board s) = Inr False"
  proof (cases "rc = 7")
    case True
    with f(9) have "transitAttacked (isCastlingPossible k s) s r (opponent (color king)) [4, 5, 6]
        = Inr False" by simp
    from transitAttacked_False[OF this] True show ?thesis
      unfolding isSquareUnderAttack_def by simp
  next
    case False
    with assms(2) f(10)
    have "transitAttacked (isCastlingPossible k s) s r (opponent (color king)) [2, 3, 4]
        = Inr False" by simp
    from transitAttacked_False[OF this] False show ?thesis
      unfolding isSquareUnderAttack_def by simp
  qed
  from n f e a show ?thesis by blast
qed

text \<open>
  What the guard of the castling branches establishes when \<open>movePiece\<close> relocates king
  and rook: the king on the home square of the mover's colour and the rook in the
  corner have not moved, every square strictly between them is empty, the king's
  colour is not flagged in check, and on none of the squares the king crosses does
  \<open>isSquareUnderAttack\<close> answer \<open>true\<close>. The attack test ran one activation of
  \<open>isCastlingPossible\<close> deeper than the call, hence the depth \<open>k\<close>. The test asks
  whether the square is among the raw moves of a piece of the other colour, on the
  board before castling; the raw moves of a pawn hold a diagonal square only if a
  piece to capture stands on it.
\<close>

lemma castling_guard:
  assumes "squareAt (board s) frm = Inr (Some fromPiece)" and "ptype fromPiece = KING"
    and "col frm = 4" and "col to = 6 \<or> col to = 2"
    and "movePiece n s frm to = (Inr True, s')"
  shows "\<exists>king rook k. n = Suc k \<and>
     pieceAt (board s) (homeRow (color fromPiece)) 4 = Some king \<and>
     ptype king = KING \<and> \<not> hasMoved king \<and>
     pieceAt (board s) (homeRow (color fromPiece)) (if col to = 6 then 7 else 0) = Some rook \<and>
     ptype rook = ROOK \<and> \<not> hasMoved rook \<and>
     isInCheck s \<noteq> Some (color king) \<and>
     (\<forall>c \<in> set (if col to = 6 then [5, 6] else [1, 2, 3]).
        pieceAt (board s) (homeRow (color fromPiece)) c = None) \<and>
     (\<forall>c \<in> set (if col to = 6 then [4, 5, 6] else [2, 3, 4]).
        isSquareUnderAttack k s \<lparr>row = homeRow (color fromPiece), col = c\<rparr>
          (opponent (color king)) (board s) = Inr False) \<and>
     board s' = castle (board s) fromPiece (homeRow (color fromPiece)) (col to)
                  (if col to = 6 then 5 else 3) (if col to = 6 then 7 else 0)"
proof -
  let ?r = "homeRow (color fromPiece)"
  let ?rc = "if col to = 6 then 7 else 0 :: int"
  from assms have
    c: "isCastlingPossible n s \<lparr>row = ?r, col = 4\<rparr> \<lparr>row = ?r, col = ?rc\<rparr> = Inr True" and
    f: "finishMove n (s\<lparr>board := castle (board s) fromPiece ?r (col to)
                          (if col to = 6 then 5 else 3) ?rc\<rparr>) = (Inr True, s')"
    by (auto simp: movePiece_def castlingMove_def ordinaryMove_def Let_def split: if_splits sum.splits)
  from finishMove_board[OF f] have
    b: "board s' = castle (board s) fromPiece ?r (col to) (if col to = 6 then 5 else 3) ?rc"
    by simp
  have "?rc = 7 \<or> ?rc = 0" by simp
  from isCastlingPossible_True[OF c this] b assms(4) show ?thesis
    by (auto split: if_splits)
qed

text \<open>
  Claim C7 fails in a reachable state. After 1. h4 g5 2. hxg5 h5 3. e3 h4 4. Be2 h3
  5. Nf3 h2 it is White's move and nobody is in check; the black pawn on h2 attacks
  g1. While g1 is empty, \<open>isSquareUnderAttack\<close> answers \<open>false\<close> for it.
  \<open>movePiece\<close> from e1 to g1 returns \<open>true\<close> and puts the king on g1 and the rook on
  f1: White has castled into check. On the board it leaves, \<open>isSquareUnderAttack\<close>
  answers \<open>true\<close> for g1, and the engine's own \<open>checkForCheck\<close> flags White, the side
  that has just castled, in check.
\<close>

theorem castles_into_check:
  "(let s = play (Suc (Suc n)) Classic castleIntoCheck;
        s' = perform (Suc (Suc n)) s (MovePiece (sq 7 4) (sq 7 6))
    in currentTurn s = WHITE \<and> isInCheck s = None \<and>
       pieceAt (board s) 7 4 = Some \<lparr>ptype = KING, color = WHITE, hasMoved = False\<rparr> \<and>
       pieceAt (board s) 7 7 = Some \<lparr>ptype = ROOK, color = WHITE, hasMoved = False\<rparr> \<and>
       pieceAt (board s) 7 5 = None \<and> pieceAt (board s) 7 6 = None \<and>
       pieceAt (board s) 6 7 = Some \<lparr>ptype = PAWN, color = BLACK, hasMoved = True\<rparr> \<and>
       isSquareUnderAttack (Suc n) s (sq 7 6) BLACK (board s) = Inr False \<and>
       fst (movePiece (Suc (Suc n)) s (sq 7 4) (sq 7 6)) = Inr True \<and>
       pieceAt (board s') 7 6 = Some \<lparr>ptype = KING, color = WHITE, hasMoved = True\<rparr> \<and>
       pieceAt (board s') 7 5 = Some \<lparr>ptype = ROOK, color = WHITE, hasMoved = True\<rparr> \<and>
       pieceAt (board s') 7 4 = None \<and> pieceAt (board s') 7 7 = None \<and>
       pieceAt (board s') 6 7 = Some \<lparr>ptype = PAWN, color = BLACK, hasMoved = True\<rparr> \<and>
       isSquareUnderAttack (Suc n) s' (sq 7 6) BLACK (board s') = Inr True \<and>
       isInCheck s' = Some WHITE)"
  by code_simp

section \<open>Moves stay on the board\<close>

text \<open>Every raw move passed \<open>isValidPosition\<close> or is a castling square of a home row, so
  the writes of the legality filter and of \<open>movePiece\<close> are on the board; and every
  board the engine reaches is 8 by 8.\<close>

lemma lineWalk_valid:
  "m \<in> set (lineWalk b p dr dc r c) \<Longrightarrow> isValidPosition (row m) (col m)"
proof (induction b p dr dc r c rule: lineWalk.induct)
  case (1 b p dr dc r c)
  from "1.prems" have "m \<in> set (if isValidPosition r c \<and> (dr \<noteq> 0 \<or> dc \<noteq> 0) then
        (case pieceAt b r c of
           None \<Rightarrow> \<lparr>row = r, col = c\<rparr> # lineWalk b p dr dc (r + dr) (c + dc)
         | Some t \<Rightarrow> if color t \<noteq> color p then [\<lparr>row = r, col = c\<rparr>] else [])
      else [])"
    by (subst (asm) lineWalk.simps)
  with "1.IH" show ?case
    by (auto split: if_splits option.splits)
qed

lemma stepMoves_valid:
  "m \<in> set (stepMoves b p pos offsets) \<Longrightarrow> isValidPosition (row m) (col m)"
  by (auto simp: stepMoves_def split: if_splits option.splits)

lemma pawnCapture_valid:
  "m \<in> set (pawnCapture s b p pos r c) \<Longrightarrow> isValidPosition (row m) (col m)"
  by (auto simp: pawnCapture_def split: if_splits option.splits)

lemma homeRow_valid: "isValidPosition (homeRow c) 6" "isValidPosition (homeRow c) 2"
  by (simp_all add: homeRow_def isValidPosition_def)

lemma raw_moves_valid:
  assumes "calculateRawMovesByPieceType cast s pos t b = Inr moves" and "m \<in> set moves"
  shows "isValidPosition (row m) (col m)"
proof (cases t)
  case PAWN
  with assms show ?thesis
    by (auto simp: calculateRawMovesByPieceType_def calculatePawnMovesRaw_def Let_def
        split: sum.splits option.splits if_splits dest: pawnCapture_valid)
next
  case ROOK
  with assms show ?thesis
    by (auto simp: calculateRawMovesByPieceType_def calculateRookMovesRaw_def
        calculateLineMovementsRaw_def split: sum.splits option.splits dest: lineWalk_valid)
next
  case KNIGHT
  with assms show ?thesis
    by (auto simp: calculateRawMovesByPieceType_def calculateKnightMovesRaw_def
        split: sum.splits option.splits dest: stepMoves_valid)
next
  case BISHOP
  with assms show ?thesis
    by (auto simp: calculateRawMovesByPieceType_def calculateBishopMovesRaw_def
        calculateLineMovementsRaw_def split: sum.splits option.splits dest: lineWalk_valid)
next
  case QUEEN
  with assms show ?thesis
    by (auto simp: calculateRawMovesByPieceType_def calculateQueenMovesRaw_def
        calculateRookMovesRaw_def calculateBishopMovesRaw_def
        calculateLineMovementsRaw_def split: sum.splits option.splits dest: lineWalk_valid)
next
  case KING
  with assms show ?thesis
    by (auto simp: calculateRawMovesByPieceType_def calculateKingMovesRaw_def Let_def homeRow_valid
        split: sum.splits option.splits if_splits dest: stepMoves_valid)
qed

lemma legal_moves_valid:
  assumes "getValidMovesForPiece n s pos = Inr moves" and "m \<in> set moves"
  shows "isValidPosition (row pos) (col pos) \<and> isValidPosition (row m) (col m)"
  using assms
  by (auto simp: getValidMovesForPiece_def squareAt_def
      split: sum.splits option.splits if_splits dest: raw_moves_valid)

lemma wf_createInitialBoard: "wf_board createInitialBoard"
  by (simp add: wf_board_def createInitialBoard_def backRank_def)

lemma wf_castle: "wf_board b \<Longrightarrow> wf_board (castle b p r k rt rf)"
  by (simp add: castle_def wf_board_setPiece)

lemma castlingMove_board:
  assumes "castlingMove n s p k rt rf = (r, s')"
  shows "s' = s \<or> board s' = castle (board s) p (homeRow (color p)) k rt rf"
proof (cases "isCastlingPossible n s \<lparr>row = homeRow (color p), col = 4\<rparr>
                \<lparr>row = homeRow (color p), col = rf\<rparr> = Inr True")
  case True
  with assms have "finishMove n (s\<lparr>board := castle (board s) p (homeRow (color p)) k rt rf\<rparr>)
      = (r, s')"
    by (simp add: castlingMove_def)
  from finishMove_board[OF this] show ?thesis by simp
next
  case False
  with assms have "s' = s"
    by (auto simp: castlingMove_def Let_def split: sum.splits if_splits)
  then show ?thesis by simp
qed

lemma ordinaryMove_board:
  assumes "ordinaryMove n s frm to p = (r, s')"
  shows "s' = s \<or>
     board s' = setPiece (setPiece (board s) (row to) (col to) (Some (p\<lparr>hasMoved := True\<rparr>)))
                  (row frm) (col frm) None \<or>
     board s' = setPiece (setPiece (setPiece (board s) (row frm) (col to) None)
                            (row to) (col to) (Some (p\<lparr>hasMoved := True\<rparr>)))
                  (row frm) (col frm) None"
proof (cases "\<exists>valid. getValidMovesForPiece n s frm = Inr valid \<and>
                (\<exists>m \<in> set valid. row m = row to \<and> col m = col to)")
  case True
  then obtain valid where v: "getValidMovesForPiece n s frm = Inr valid"
    and e: "\<exists>m \<in> set valid. row m = row to \<and> col m = col to" by blast
  let ?b1 = "if ptype p = PAWN \<and> isEnPassantPossible s frm to
             then setPiece (board s) (row frm) (col to) None else board s"
  let ?lm = "\<lparr>lm_from = \<lparr>row = row frm, col = col frm\<rparr>, lm_to = \<lparr>row = row to, col = col to\<rparr>,
              lm_piece = p\<rparr>"
  have "ordinaryMove n s frm to p =
      finishMove n (s\<lparr>board := setPiece (setPiece ?b1 (row to) (col to)
        (Some (p\<lparr>hasMoved := True\<rparr>))) (row frm) (col frm) None, lastMove := Some ?lm\<rparr>)"
    using v e by (simp add: ordinaryMove_def Let_def)
  with assms have "finishMove n (s\<lparr>board := setPiece (setPiece ?b1 (row to) (col to)
        (Some (p\<lparr>hasMoved := True\<rparr>))) (row frm) (col frm) None, lastMove := Some ?lm\<rparr>) = (r, s')"
    by simp
  from finishMove_board[OF this] show ?thesis by (simp split: if_splits)
next
  case False
  with assms have "s' = s"
    by (auto simp: ordinaryMove_def split: sum.splits if_splits)
  then show ?thesis by simp
qed

lemma movePiece_branches:
  assumes "movePiece n s frm to = (r, s')"
  shows "s' = s \<or> (\<exists>p. squareAt (board s) frm = Inr (Some p) \<and>
           (castlingMove n s p 6 5 7 = (r, s') \<or> castlingMove n s p 2 3 0 = (r, s') \<or>
            ordinaryMove n s frm to p = (r, s')))"
proof (cases "squareAt (board s) frm")
  case (Inl e)
  with assms have "s' = s" by (simp add: movePiece_def split: if_splits)
  then show ?thesis by simp
next
  case (Inr q)
  show ?thesis
  proof (cases q)
    case None
    with Inr assms have "s' = s" by (simp add: movePiece_def split: if_splits)
    then show ?thesis by simp
  next
    case (Some p)
    with Inr assms have "s' = s \<or> castlingMove n s p 6 5 7 = (r, s') \<or>
        castlingMove n s p 2 3 0 = (r, s') \<or> ordinaryMove n s frm to p = (r, s')"
      by (simp add: movePiece_def split: if_splits)
    with Inr Some show ?thesis by blast
  qed
qed

lemma movePiece_wf:
  assumes "wf_board (board s)"
  shows "wf_board (board (snd (movePiece n s frm to)))"
proof -
  obtain r s' where m: "movePiece n s frm to = (r, s')" by (cases "movePiece n s frm to")
  from movePiece_branches[OF m] have "wf_board (board s')"
  proof (elim disjE exE conjE)
    assume "s' = s"
    with assms show ?thesis by simp
  next
    fix p
    assume "castlingMove n s p 6 5 7 = (r, s')"
    from castlingMove_board[OF this] assms show ?thesis
      by (auto simp: wf_castle)
  next
    fix p
    assume "castlingMove n s p 2 3 0 = (r, s')"
    from castlingMove_board[OF this] assms show ?thesis
      by (auto simp: wf_castle)
  next
    fix p
    assume "ordinaryMove n s frm to p = (r, s')"
    from ordinaryMove_board[OF this] assms show ?thesis
      by (auto simp: wf_board_setPiece)
  qed
  with m show ?thesis by simp
qed

lemma perform_wf:
  assumes "wf_board (board s)"
  shows "wf_board (board (perform n s c))"
proof (cases c)
  case (SelectPiece p)
  obtain r s' where "selectPiece n s p = (r, s')" by (cases "selectPiece n s p")
  with selectPiece_frame[OF this] SelectPiece assms show ?thesis by auto
next
  case (PromotePawn p t)
  show ?thesis
  proof (cases "\<exists>q. squareAt (board s) p = Inr (Some q) \<and> ptype q = PAWN \<and> isLastRank q p")
    case False
    from promotePawn_noop[OF this] PromotePawn assms show ?thesis by simp
  next
    case True
    then obtain q where q: "squareAt (board s) p = Inr (Some q)" "ptype q = PAWN" "isLastRank q p"
      by blast
    let ?b = "setPiece (board s) (row p) (col p) (Some \<lparr>ptype = t, color = color q, hasMoved = True\<rparr>)"
    obtain r s' where rs: "recheck n (s\<lparr>board := ?b\<rparr>) = (r, s')"
      by (cases "recheck n (s\<lparr>board := ?b\<rparr>)")
    from recheck_frame[OF rs] have "board s' = ?b" by auto
    with promotePawn_promotes[OF q, of n t] rs PromotePawn assms show ?thesis
      by (simp add: wf_board_setPiece)
  qed
next
  case (MovePiece a b)
  with movePiece_wf[OF assms] show ?thesis by simp
qed (use assms in \<open>auto simp: unselectPiece_def rollDice_def tossCoin_def resetGame_def
      wf_createInitialBoard Let_def\<close>)

lemma foldl_perform_wf:
  "wf_board (board s) \<Longrightarrow> wf_board (board (foldl (perform n) s calls))"
  by (induction calls arbitrary: s) (simp_all add: perform_wf)

lemma play_wf: "wf_board (board (play n g calls))"
  by (simp add: play_def foldl_perform_wf construct_def wf_createInitialBoard)

lemma simulateMove_board:
  assumes "wf_board b" "isValidPosition (row pos) (col pos)" "isValidPosition (row m) (col m)"
    "isValidPosition r c"
  shows "pieceAt (simulateMove b pos m) r c =
     (if r = row pos \<and> c = col pos then None
      else if r = row m \<and> c = col m then pieceAt b (row pos) (col pos)
      else pieceAt b r c)"
  using assms by (simp add: simulateMove_def pieceAt_setPiece wf_board_setPiece)

section \<open>The castling recursion\<close>

text \<open>
  After 1. e3 e6 2. Be2 Be7 3. Nf3 Nf6 both kings and both king's rooks are unmoved
  and the squares between them are empty. \<open>isCastlingPossible\<close> for White then asks
  whether e1 is attacked, which generates the raw moves of the black king, which asks
  \<open>isCastlingPossible\<close> for Black, which asks whether e8 is attacked, which generates the
  raw moves of the white king, and so on. Whatever the depth of the stack, the call
  ends in \<open>RangeError\<close>: the pieces scanned before the king do not attack the square,
  and their raw moves do not depend on the activation below.
\<close>

lemma attackedFrom_append:
  "attackedFrom c s t byColor b (xs @ ys) =
     (case attackedFrom c s t byColor b xs of
        Inl e \<Rightarrow> Inl e
      | Inr a \<Rightarrow> if a then Inr True else attackedFrom c s t byColor b ys)"
  by (induction xs) (auto split: option.splits sum.splits)

lemma raw_without_king:
  "t \<noteq> KING \<Longrightarrow>
   calculateRawMovesByPieceType c s pos t b = calculateRawMovesByPieceType c' s pos t b"
  by (cases t) (simp_all add: calculateRawMovesByPieceType_def)

lemma attackedFrom_without_king:
  "noKingOf b byColor sqs \<Longrightarrow>
   attackedFrom c s t byColor b sqs = attackedFrom c' s t byColor b sqs"
proof (induction sqs)
  case Nil
  then show ?case by simp
next
  case (Cons a sqs)
  then have n: "noKingOf b byColor sqs" by (simp add: noKingOf_def)
  show ?case
  proof (cases "pieceAt b (row a) (col a)")
    case None
    with Cons.IH[OF n] show ?thesis by simp
  next
    case (Some q)
    show ?thesis
    proof (cases "color q = byColor")
      case True
      with Cons.prems Some have "ptype q \<noteq> KING" by (simp add: noKingOf_def)
      from raw_without_king[OF this, of c s a b c'] Cons.IH[OF n] Some True show ?thesis
        by (auto split: sum.splits)
    next
      case False
      with Cons.IH[OF n] Some show ?thesis by simp
    qed
  qed
qed

lemma king_raw_throws:
  assumes "squareAt b pos = Inr (Some k)" "\<not> hasMoved k" "col pos = 4"
    "c \<lparr>row = homeRow (color k), col = 4\<rparr> \<lparr>row = homeRow (color k), col = 7\<rparr> = Inl e"
  shows "calculateKingMovesRaw c pos b = Inl e"
  using assms by (simp add: calculateKingMovesRaw_def Let_def)

lemma attack_throws_at_king:
  assumes "allSquares = pre @ kp # rest"
    and "noKingOf b byColor pre"
    and "attackedFrom overflow s t byColor b pre = Inr False"
    and "squareAt b kp = Inr (Some k)"
    and "color k = byColor" "ptype k = KING" "\<not> hasMoved k" "col kp = 4"
    and "c \<lparr>row = homeRow byColor, col = 4\<rparr> \<lparr>row = homeRow byColor, col = 7\<rparr> = Inl e"
  shows "isSquareUnderAttackWith c s t byColor b = Inl e"
proof -
  from assms(2,3) have p: "attackedFrom c s t byColor b pre = Inr False"
    using attackedFrom_without_king by metis
  from assms(4) have pa: "pieceAt b (row kp) (col kp) = Some k"
    by (auto simp: squareAt_def split: if_splits)
  from king_raw_throws[OF assms(4,7,8)] assms(5,9)
  have "calculateKingMovesRaw c kp b = Inl e" by simp
  with pa assms(5,6) have "attackedFrom c s t byColor b (kp # rest) = Inl e"
    by (simp add: calculateRawMovesByPieceType_def)
  with p show ?thesis
    by (simp add: isSquareUnderAttackWith_def assms(1) attackedFrom_append)
qed

lemma castling_throws:
  assumes "isValidPosition r 4" "isValidPosition r 7"
    and "pieceAt (board s) r 4 = Some k" "pieceAt (board s) r 7 = Some rk"
    and "ptype k = KING" "\<not> hasMoved k" "ptype rk = ROOK" "\<not> hasMoved rk"
    and "isInCheck s \<noteq> Some (color k)"
    and "pieceAt (board s) r 5 = None" "pieceAt (board s) r 6 = None"
    and "isSquareUnderAttackWith c s \<lparr>row = r, col = 4\<rparr> (opponent (color k)) (board s) = Inl e"
  shows "isCastlingPossibleBody c s \<lparr>row = r, col = 4\<rparr> \<lparr>row = r, col = 7\<rparr> = Inl e"
proof -
  have u: "[min 4 (7::int) + 1 .. max 4 7 - 1] = [5, 6]" by code_simp
  show ?thesis
    using assms by (simp add: isCastlingPossibleBody_def squareAt_valid u)
qed

lemma bothMayCastle_white:
  "(let s = play 8 Classic bothMayCastle
    in pieceAt (board s) 7 4 = Some \<lparr>ptype = KING, color = WHITE, hasMoved = False\<rparr> \<and>
       pieceAt (board s) 7 7 = Some \<lparr>ptype = ROOK, color = WHITE, hasMoved = False\<rparr> \<and>
       isInCheck s = None \<and> pieceAt (board s) 7 5 = None \<and> pieceAt (board s) 7 6 = None \<and>
       allSquares = take 60 allSquares @ sq 7 4 # drop 61 allSquares \<and>
       noKingOf (board s) WHITE (take 60 allSquares) \<and>
       attackedFrom overflow s \<lparr>row = 0, col = 4\<rparr> WHITE (board s) (take 60 allSquares) = Inr False \<and>
       squareAt (board s) (sq 7 4) = Inr (Some \<lparr>ptype = KING, color = WHITE, hasMoved = False\<rparr>))"
  by code_simp

lemma bothMayCastle_black:
  "(let s = play 8 Classic bothMayCastle
    in pieceAt (board s) 0 4 = Some \<lparr>ptype = KING, color = BLACK, hasMoved = False\<rparr> \<and>
       pieceAt (board s) 0 7 = Some \<lparr>ptype = ROOK, color = BLACK, hasMoved = False\<rparr> \<and>
       pieceAt (board s) 0 5 = None \<and> pieceAt (board s) 0 6 = None \<and>
       allSquares = take 4 allSquares @ sq 0 4 # drop 5 allSquares \<and>
       noKingOf (board s) BLACK (take 4 allSquares) \<and>
       attackedFrom overflow s \<lparr>row = 7, col = 4\<rparr> BLACK (board s) (take 4 allSquares) = Inr False \<and>
       squareAt (board s) (sq 0 4) = Inr (Some \<lparr>ptype = KING, color = BLACK, hasMoved = False\<rparr>))"
  by code_simp

lemma castling_never_returns:
  "isCastlingPossible n (play 8 Classic bothMayCastle) \<lparr>row = 7, col = 4\<rparr> \<lparr>row = 7, col = 7\<rparr>
     = Inl RangeError \<and>
   isCastlingPossible n (play 8 Classic bothMayCastle) \<lparr>row = 0, col = 4\<rparr> \<lparr>row = 0, col = 7\<rparr>
     = Inl RangeError"
proof (induction n)
  case 0
  show ?case by simp
next
  case (Suc n)
  let ?S = "play 8 Classic bothMayCastle"
  let ?c = "isCastlingPossible n ?S"
  note w = bothMayCastle_white[unfolded Let_def]
  note b = bothMayCastle_black[unfolded Let_def]
  have ab: "isSquareUnderAttackWith ?c ?S \<lparr>row = 7, col = 4\<rparr> BLACK (board ?S) = Inl RangeError"
    using b Suc
    by (intro attack_throws_at_king[where pre = "take 4 allSquares" and kp = "sq 0 4"
          and rest = "drop 5 allSquares"
          and k = "\<lparr>ptype = KING, color = BLACK, hasMoved = False\<rparr>"])
       (simp_all add: sq_def homeRow_def)
  have aw: "isSquareUnderAttackWith ?c ?S \<lparr>row = 0, col = 4\<rparr> WHITE (board ?S) = Inl RangeError"
    using w Suc
    by (intro attack_throws_at_king[where pre = "take 60 allSquares" and kp = "sq 7 4"
          and rest = "drop 61 allSquares"
          and k = "\<lparr>ptype = KING, color = WHITE, hasMoved = False\<rparr>"])
       (simp_all add: sq_def homeRow_def)
  have "isCastlingPossibleBody ?c ?S \<lparr>row = 7, col = 4\<rparr> \<lparr>row = 7, col = 7\<rparr> = Inl RangeError"
    using w ab
    by (intro castling_throws[where k = "\<lparr>ptype = KING, color = WHITE, hasMoved = False\<rparr>"
          and rk = "\<lparr>ptype = ROOK, color = WHITE, hasMoved = False\<rparr>"])
       (simp_all add: opponent_def isValidPosition_def)
  moreover
  have "isCastlingPossibleBody ?c ?S \<lparr>row = 0, col = 4\<rparr> \<lparr>row = 0, col = 7\<rparr> = Inl RangeError"
    using w b aw
    by (intro castling_throws[where k = "\<lparr>ptype = KING, color = BLACK, hasMoved = False\<rparr>"
          and rk = "\<lparr>ptype = ROOK, color = BLACK, hasMoved = False\<rparr>"])
       (simp_all add: opponent_def isValidPosition_def)
  ultimately show ?case by simp
qed

text \<open>In that position a call of \<open>movePiece\<close> with on-board squares, e1 to g1, throws
  at every depth of the stack.\<close>

lemma castling_attempt_overflows:
  "movePiece n (play 8 Classic bothMayCastle) (sq 7 4) (sq 7 6) =
     (Inl RangeError, play 8 Classic bothMayCastle)"
proof -
  have "squareAt (board (play 8 Classic bothMayCastle)) (sq 7 4) =
      Inr (Some \<lparr>ptype = KING, color = WHITE, hasMoved = False\<rparr>)"
    and "gameType (play 8 Classic bothMayCastle) = Classic"
    using bothMayCastle_white by (simp_all add: Let_def play_def play_gameType construct_def)
  with castling_never_returns[of n] show ?thesis
    by (simp add: movePiece_def castlingMove_def sq_def homeRow_def)
qed

section \<open>What crosses the public surface\<close>






















section \<open>Promotion\<close>

text \<open>
  Claim C8, as amended. \<open>promotePawn(position, newType)\<close> leaves the state unchanged
  unless the square holds a pawn standing on the last rank of its own colour (row 0
  for White, row 7 for Black), whichever colour is to move. When it does, the call is
  \<open>recheck\<close> (check detection, then checkmate detection if a check was found) on the
  state whose board has a piece of \<open>newType\<close> and of the pawn's colour, with
  \<open>hasMoved = true\<close>, on that square and every other square as before. Without its
  second argument the call promotes to a queen.
\<close>

theorem promotePawn_contract:
  "(\<not> (\<exists>p. squareAt (board s) pos = Inr (Some p) \<and> ptype p = PAWN \<and> isLastRank p pos) \<longrightarrow>
      snd (promotePawn n s pos newType) = s) \<and>
   (\<forall>p. squareAt (board s) pos = Inr (Some p) \<and> ptype p = PAWN \<and> isLastRank p pos \<longrightarrow>
      promotePawn n s pos newType =
        recheck n (s\<lparr>board := setPiece (board s) (row pos) (col pos)
                     (Some \<lparr>ptype = newType, color = color p, hasMoved = True\<rparr>)\<rparr>) \<and>
      (wf_board (board s) \<longrightarrow>
         (\<forall>r c. isValidPosition r c \<longrightarrow>
            pieceAt (board (snd (promotePawn n s pos newType))) r c =
              (if r = row pos \<and> c = col pos
               then Some \<lparr>ptype = newType, color = color p, hasMoved = True\<rparr>
               else pieceAt (board s) r c)))) \<and>
   promotePawnDefault n s pos = promotePawn n s pos QUEEN"
proof (intro conjI allI impI)
  assume "\<not> (\<exists>p. squareAt (board s) pos = Inr (Some p) \<and> ptype p = PAWN \<and> isLastRank p pos)"
  then show "snd (promotePawn n s pos newType) = s" by (rule promotePawn_noop)
next
  fix p
  assume p: "squareAt (board s) pos = Inr (Some p) \<and> ptype p = PAWN \<and> isLastRank p pos"
  let ?b = "setPiece (board s) (row pos) (col pos)
              (Some \<lparr>ptype = newType, color = color p, hasMoved = True\<rparr>)"
  from p show eq: "promotePawn n s pos newType = recheck n (s\<lparr>board := ?b\<rparr>)"
    by (simp add: promotePawn_promotes)
  fix r c
  assume wf: "wf_board (board s)" and v: "isValidPosition r c"
  obtain res s' where rs: "recheck n (s\<lparr>board := ?b\<rparr>) = (res, s')"
    by (cases "recheck n (s\<lparr>board := ?b\<rparr>)")
  from recheck_frame[OF rs] have "board s' = ?b" by auto
  moreover from p have "isValidPosition (row pos) (col pos)"
    by (auto simp: squareAt_def split: if_splits)
  ultimately show "pieceAt (board (snd (promotePawn n s pos newType))) r c =
      (if r = row pos \<and> c = col pos
       then Some \<lparr>ptype = newType, color = color p, hasMoved = True\<rparr>
       else pieceAt (board s) r c)"
    using eq rs wf v by (simp add: pieceAt_setPiece)
next
  show "promotePawnDefault n s pos = promotePawn n s pos QUEEN"
    by (simp add: promotePawnDefault_def)
qed

lemma promoClassic_squares:
  "(let s = play 8 Classic promoClassic
    in squareAt (board s) (sq 0 0) = Inr (Some \<lparr>ptype = PAWN, color = WHITE, hasMoved = True\<rparr>) \<and>
       squareAt (board s) (sq 0 1) = Inr (Some \<lparr>ptype = KNIGHT, color = BLACK, hasMoved = False\<rparr>))"
  by code_simp

theorem promotePawn_contract_witness:
  "\<not> (\<exists>p. squareAt (board (play 8 Classic promoClassic)) (sq 0 1) = Inr (Some p) \<and>
           ptype p = PAWN \<and> isLastRank p (sq 0 1)) \<and>
   snd (promotePawn 8 (play 8 Classic promoClassic) (sq 0 1) ROOK) = play 8 Classic promoClassic \<and>
   squareAt (board (play 8 Classic promoClassic)) (sq 0 0) =
     Inr (Some \<lparr>ptype = PAWN, color = WHITE, hasMoved = True\<rparr>) \<and>
   ptype \<lparr>ptype = PAWN, color = WHITE, hasMoved = True\<rparr> = PAWN \<and>
   isLastRank \<lparr>ptype = PAWN, color = WHITE, hasMoved = True\<rparr> (sq 0 0) \<and>
   promotePawn 8 (play 8 Classic promoClassic) (sq 0 0) ROOK =
     recheck 8 ((play 8 Classic promoClassic)\<lparr>board :=
       setPiece (board (play 8 Classic promoClassic)) (row (sq 0 0)) (col (sq 0 0))
         (Some \<lparr>ptype = ROOK, color = WHITE, hasMoved = True\<rparr>)\<rparr>)"
proof -
  let ?S = "play 8 Classic promoClassic"
  let ?P = "\<lparr>ptype = PAWN, color = WHITE, hasMoved = True\<rparr>"
  have a: "squareAt (board ?S) (sq 0 0) = Inr (Some ?P)"
    and b: "squareAt (board ?S) (sq 0 1) = Inr (Some \<lparr>ptype = KNIGHT, color = BLACK, hasMoved = False\<rparr>)"
    using promoClassic_squares by (simp_all add: Let_def)
  from b have n: "\<not> (\<exists>p. squareAt (board ?S) (sq 0 1) = Inr (Some p) \<and>
           ptype p = PAWN \<and> isLastRank p (sq 0 1))"
    by auto
  have l: "ptype ?P = PAWN" "isLastRank ?P (sq 0 0)"
    by (simp_all add: isLastRank_def sq_def)
  from promotePawn_contract [of ?S "sq 0 1" 8 ROOK] n
  have 1: "snd (promotePawn 8 ?S (sq 0 1) ROOK) = ?S" by blast
  from promotePawn_contract [of ?S "sq 0 0" 8 ROOK] a l
  have 2: "promotePawn 8 ?S (sq 0 0) ROOK =
     recheck 8 (?S\<lparr>board := setPiece (board ?S) (row (sq 0 0)) (col (sq 0 0))
         (Some \<lparr>ptype = ROOK, color = color ?P, hasMoved = True\<rparr>)\<rparr>)"
    by blast
  from n 1 a l 2 show ?thesis by simp
qed

text \<open>
  Claim C8 as stated makes the call a no-op unless the pawn is of the current mover's
  colour. After 1. a4 h6 2. a5 h5 3. a6 h4 4. axb7 h3 5. bxa8 it is Black's turn, the
  pawn on a8 is White's, and \<open>promotePawn\<close> turns it into a queen.
\<close>

theorem promotePawn_ignores_turn_counterexample:
  "(let s = play 8 Classic promoClassic;
        s' = perform 8 s (PromotePawn (sq 0 0) QUEEN)
    in currentTurn s = BLACK \<and>
       squareAt (board s) (sq 0 0) = Inr (Some \<lparr>ptype = PAWN, color = WHITE, hasMoved = True\<rparr>) \<and>
       squareAt (board s') (sq 0 0) = Inr (Some \<lparr>ptype = QUEEN, color = WHITE, hasMoved = True\<rparr>) \<and>
       s' \<noteq> s)"
  by code_simp

section \<open>The dice variant out of moves and in check\<close>

lemma perform_turn_fields:
  assumes "c \<noteq> ResetGame" "gameType s = Dice" "remainingMoves s \<le> 0" "\<not> waitingForDiceRoll s"
    "isInCheck s \<noteq> None"
  shows "currentTurn (perform n s c) = currentTurn s \<and>
         remainingMoves (perform n s c) = remainingMoves s \<and>
         waitingForDiceRoll (perform n s c) = waitingForDiceRoll s \<and>
         waitingForCoinToss (perform n s c) = waitingForCoinToss s \<and>
         lastMove (perform n s c) = lastMove s"
proof (cases c)
  case (SelectPiece p)
  obtain r s' where "selectPiece n s p = (r, s')" by (cases "selectPiece n s p")
  with selectPiece_frame[OF this] SelectPiece show ?thesis by auto
next
  case (PromotePawn p t)
  obtain r s' where "promotePawn n s p t = (r, s')" by (cases "promotePawn n s p t")
  with promotePawn_frame[OF this] PromotePawn show ?thesis by auto
next
  case (MovePiece a b)
  with assms show ?thesis by (simp add: movePiece_def)
qed (use assms in \<open>auto simp: unselectPiece_def rollDice_def tossCoin_def\<close>)

text \<open>
  Claim C10, as amended. In every Dice state with \<open>remainingMoves \<le> 0\<close>,
  \<open>waitingForDiceRoll\<close> false and \<open>isInCheck\<close> set, \<open>movePiece\<close> returns \<open>false\<close> for
  every pair of positions, and \<open>rollDice\<close> and \<open>tossCoin\<close> return their sentinel values,
  all three leaving the state unchanged; and no public call other than \<open>resetGame\<close>
  changes the variant, \<open>currentTurn\<close>, \<open>remainingMoves\<close>, the two waiting flags or
  \<open>lastMove\<close>. (\<open>selectPiece\<close> and \<open>unselectPiece\<close> still change the selection, and
  \<open>promotePawn\<close> still promotes a pawn that stands on its last rank.)
\<close>

theorem dice_deadlock:
  assumes "gameType s = Dice" and "remainingMoves s \<le> 0" and "\<not> waitingForDiceRoll s"
    and "isInCheck s \<noteq> None"
  shows "movePiece n s frm to = (Inr False, s) \<and>
         rollDice v s = (\<lparr>dr_value = 0, dr_moves = 0, dr_player = currentTurn s\<rparr>, s) \<and>
         tossCoin side s = (\<lparr>result = currentTurn s\<rparr>, s) \<and>
         (\<forall>c. c \<noteq> ResetGame \<longrightarrow>
            gameType (perform n s c) = Dice \<and>
            currentTurn (perform n s c) = currentTurn s \<and>
            remainingMoves (perform n s c) = remainingMoves s \<and>
            waitingForDiceRoll (perform n s c) = waitingForDiceRoll s \<and>
            waitingForCoinToss (perform n s c) = waitingForCoinToss s \<and>
            lastMove (perform n s c) = lastMove s)"
proof -
  have "movePiece n s frm to = (Inr False, s)"
    using assms by (simp add: movePiece_def)
  moreover have "rollDice v s = (\<lparr>dr_value = 0, dr_moves = 0, dr_player = currentTurn s\<rparr>, s)"
    using assms by (simp add: rollDice_def)
  moreover have "tossCoin side s = (\<lparr>result = currentTurn s\<rparr>, s)"
    using assms by (simp add: tossCoin_def)
  ultimately show ?thesis
    using perform_turn_fields[OF _ assms] assms(1) by (simp add: perform_gameType)
qed

text \<open>The dice game in which Qh5+ is the last move the roll granted.\<close>

lemma diceDead_state:
  "(let s = play 8 Dice diceDead
    in gameType s = Dice \<and> remainingMoves s \<le> 0 \<and> \<not> waitingForDiceRoll s \<and>
       isInCheck s \<noteq> None)"
  by code_simp

theorem dice_deadlock_witness:
  "gameType (play 8 Dice diceDead) = Dice \<and> remainingMoves (play 8 Dice diceDead) \<le> 0 \<and>
   \<not> waitingForDiceRoll (play 8 Dice diceDead) \<and> isInCheck (play 8 Dice diceDead) \<noteq> None \<and>
   movePiece 8 (play 8 Dice diceDead) (sq 1 6) (sq 2 6) = (Inr False, play 8 Dice diceDead) \<and>
   rollDice 5 (play 8 Dice diceDead) =
     (\<lparr>dr_value = 0, dr_moves = 0, dr_player = currentTurn (play 8 Dice diceDead)\<rparr>,
      play 8 Dice diceDead) \<and>
   tossCoin WHITE (play 8 Dice diceDead) =
     (\<lparr>result = currentTurn (play 8 Dice diceDead)\<rparr>, play 8 Dice diceDead) \<and>
   remainingMoves (perform 8 (play 8 Dice diceDead) (SelectPiece (sq 1 6))) =
     remainingMoves (play 8 Dice diceDead) \<and>
   waitingForDiceRoll (perform 8 (play 8 Dice diceDead) (SelectPiece (sq 1 6))) =
     waitingForDiceRoll (play 8 Dice diceDead)"
proof -
  have h: "gameType (play 8 Dice diceDead) = Dice" "remainingMoves (play 8 Dice diceDead) \<le> 0"
    "\<not> waitingForDiceRoll (play 8 Dice diceDead)" "isInCheck (play 8 Dice diceDead) \<noteq> None"
    using diceDead_state by (simp_all add: Let_def)
  from dice_deadlock [OF h, of 8 "sq 1 6" "sq 2 6" 5 WHITE] h show ?thesis
    by (simp del: perform.simps)
qed

text \<open>
  Claim C10 as stated ends with "no public operation other than resetGame changes the
  game". In the dice game \<open>dicePromo\<close> the state is as the claim describes, a white pawn
  stands on c8, and \<open>promotePawn\<close> replaces it by a queen.
\<close>

theorem dice_deadlock_promotion_counterexample:
  "(let s = play 8 Dice dicePromo;
        s' = perform 8 s (PromotePawn (sq 0 2) QUEEN)
    in gameType s = Dice \<and> remainingMoves s \<le> 0 \<and> \<not> waitingForDiceRoll s \<and>
       isInCheck s = Some BLACK \<and>
       pieceAt (board s) 0 2 = Some \<lparr>ptype = PAWN, color = WHITE, hasMoved = True\<rparr> \<and>
       pieceAt (board s') 0 2 = Some \<lparr>ptype = QUEEN, color = WHITE, hasMoved = True\<rparr> \<and>
       board s' \<noteq> board s)"
  by code_simp

section \<open>Where the engine departs from its description\<close>

text \<open>What \<open>checkForCheckmate\<close> itself guarantees when it newly names a colour.\<close>

lemma checkForCheckmate_sets:
  assumes "checkForCheckmate n s = (Inr u, s')" and "isCheckmate s' = Some c"
    and "isCheckmate s \<noteq> Some c"
  shows "isInCheck s' = Some c \<and> anyLegalMove n s c allSquares = Inr False"
  using assms
  by (auto simp: checkForCheckmate_def split: option.splits sum.splits bool.splits)

text \<open>
  Claim C2. The claim: \<open>isCheckmate\<close> is set only together with \<open>isInCheck\<close> of the same
  colour and is cleared whenever \<open>isInCheck\<close> is cleared, after every public call.
  \<open>checkForCheckmate\<close> has the branch that clears it, but \<open>handlePostMove\<close> and
  \<open>promotePawn\<close> call \<open>checkForCheckmate\<close> only when a check was found. After the fool's
  mate White is in check and checkmated and the turn stays with Black; Black's Qxg4
  lifts the check, and \<open>isCheckmate\<close> still names White. This is so at every stack depth
  of at least two.
\<close>

theorem stale_checkmate_after_mate:
  "(let s = play (Suc (Suc n)) Classic foolsMate;
        s' = perform (Suc (Suc n)) s (MovePiece (sq 4 7) (sq 4 6))
    in isInCheck s = Some WHITE \<and> isCheckmate s = Some WHITE \<and> currentTurn s = BLACK \<and>
       fst (movePiece (Suc (Suc n)) s (sq 4 7) (sq 4 6)) = Inr True \<and>
       isInCheck s' = None \<and> isCheckmate s' = Some WHITE)"
  by code_simp

text \<open>What holds of the dice counter after a successful move: one is taken off, and
  \<open>waitingForDiceRoll\<close> is set when the count is used up, no check is found after the
  move, and none was flagged before it.\<close>

lemma movePiece_dice_decrement:
  assumes "gameType s = Dice" and "movePiece n s frm to = (Inr True, s')"
  shows "remainingMoves s' = remainingMoves s - 1"
proof -
  from movePiece_ok[OF assms(2)] obtain b lm where
    h: "handlePostMove n (s\<lparr>board := b, lastMove := lm\<rparr>) = (Inr (), s')" by blast
  have "remainingMoves (advanceTurn (s\<lparr>board := b, lastMove := lm\<rparr>)) = remainingMoves s - 1"
    using assms(1) by (simp add: advanceTurn_def Let_def)
  with handlePostMove_ok[OF h] show ?thesis
    by (auto simp: checkOverride_def)
qed

lemma movePiece_dice_waiting:
  assumes "gameType s = Dice" and "movePiece n s frm to = (Inr True, s')"
  shows "waitingForDiceRoll s' =
     (remainingMoves s' \<le> 0 \<and> isInCheck s = None \<and> isInCheck s' = None)"
proof -
  from assms have g: "\<not> waitingForDiceRoll s"
    by (auto simp: movePiece_def split: if_splits)
  from movePiece_ok[OF assms(2)] obtain b lm where
    h: "handlePostMove n (s\<lparr>board := b, lastMove := lm\<rparr>) = (Inr (), s')" by blast
  let ?t = "s\<lparr>board := b, lastMove := lm\<rparr>"
  have a: "remainingMoves (advanceTurn ?t) = remainingMoves s - 1"
       "waitingForDiceRoll (advanceTurn ?t) = (remainingMoves s - 1 \<le> 0 \<and> isInCheck s = None)"
    using assms(1) g by (auto simp: advanceTurn_def Let_def)
  from handlePostMove_ok[OF h] a show ?thesis
    by (auto simp: checkOverride_def)
qed

text \<open>
  Claim C4. The claim: in the Dice variant a successful \<open>movePiece\<close> takes one from
  \<open>remainingMoves\<close>, and \<open>waitingForDiceRoll\<close> becomes true exactly when the count reaches
  0 and no check exists after the move. \<open>handlePostMove\<close> tests \<open>isInCheck\<close> before
  \<open>checkForCheck\<close> has recomputed it. In the game \<open>diceStale\<close> Black answers the check
  with g6, the last move of the roll: the count reaches 0, no check is left, and
  \<open>waitingForDiceRoll\<close> stays false; from then on \<open>movePiece\<close> answers \<open>false\<close> and
  \<open>rollDice\<close> changes nothing.
\<close>

theorem dice_roll_not_reopened:
  "(let s = play (Suc (Suc n)) Dice diceStale;
        s' = perform (Suc (Suc n)) s (MovePiece (sq 1 6) (sq 2 6))
    in remainingMoves s = 1 \<and> isInCheck s = Some BLACK \<and>
       fst (movePiece (Suc (Suc n)) s (sq 1 6) (sq 2 6)) = Inr True \<and>
       remainingMoves s' = 0 \<and> isInCheck s' = None \<and> waitingForDiceRoll s' = False \<and>
       fst (movePiece (Suc (Suc n)) s' (sq 6 0) (sq 5 0)) = Inr False \<and>
       perform (Suc (Suc n)) s' (RollDice 5) = s')"
  by code_simp

text \<open>The ordinary path records the move with the piece as it was; a castling branch
  leaves \<open>lastMove\<close> as it found it.\<close>

lemma castlingMove_lastMove:
  "castlingMove n s p k rt rf = (r, s') \<Longrightarrow> lastMove s' = lastMove s"
  by (auto simp: castlingMove_def Let_def split: sum.splits if_splits dest: finishMove_board)

lemma ordinaryMove_lastMove:
  assumes "ordinaryMove n s frm to p = (Inr True, s')"
  shows "lastMove s' = Some \<lparr>lm_from = \<lparr>row = row frm, col = col frm\<rparr>,
                             lm_to = \<lparr>row = row to, col = col to\<rparr>, lm_piece = p\<rparr>"
  using assms
  by (auto simp: ordinaryMove_def Let_def split: sum.splits if_splits dest: finishMove_board)

text \<open>
  Claim C6. The claim: after every successful \<open>movePiece\<close>, castling included,
  \<open>lastMove\<close> is the move just made, with the piece as it was before. The two castling
  branches return before the statement that records the move. After 1. e3 a6 2. Be2 b6
  3. Nf3 c6 White castles short: the call returns \<open>true\<close>, king and rook stand on g1 and
  f1, and \<open>lastMove\<close> is still Black's c7-c6.
\<close>

theorem castling_keeps_lastMove:
  "(let s = play (Suc (Suc n)) Classic castleOpening;
        s' = perform (Suc (Suc n)) s (MovePiece (sq 7 4) (sq 7 6))
    in fst (movePiece (Suc (Suc n)) s (sq 7 4) (sq 7 6)) = Inr True \<and>
       pieceAt (board s') 7 6 = Some \<lparr>ptype = KING, color = WHITE, hasMoved = True\<rparr> \<and>
       pieceAt (board s') 7 5 = Some \<lparr>ptype = ROOK, color = WHITE, hasMoved = True\<rparr> \<and>
       lastMove s' = lastMove s \<and>
       lastMove s' = Some \<lparr>lm_from = sq 1 2, lm_to = sq 2 2,
                            lm_piece = \<lparr>ptype = PAWN, color = BLACK, hasMoved = False\<rparr>\<rparr>)"
  by code_simp

end
